theory Spec2Isabelle
  imports Main "HOL-Library.Sublist"
begin

section \<open>Python strings\<close>

text \<open>
  Strings are lists of 8-bit characters. On that range Python's \<^verbatim>\<open>str.isspace\<close> (and the
  regular expression class \<^verbatim>\<open>\s\<close>) holds of the twelve characters below, and \<^verbatim>\<open>\d\<close> of the
  ten ASCII digits only.
\<close>

definition isspace :: "char \<Rightarrow> bool" where
  "isspace c = (c \<in> set [CHR 0x09, CHR 0x0A, CHR 0x0B, CHR 0x0C, CHR 0x0D, CHR 0x1C, CHR 0x1D,
                         CHR 0x1E, CHR 0x1F, CHR '' '', CHR 0x85, CHR 0xA0])"

definition isdigit :: "char \<Rightarrow> bool" where
  "isdigit c = (c \<in> set ''0123456789'')"

text \<open>\<^verbatim>\<open>str.strip()\<close>: leading and trailing whitespace removed.\<close>

definition strip :: "string \<Rightarrow> string" where
  "strip s = rev (dropWhile isspace (rev (dropWhile isspace s)))"

text \<open>\<^verbatim>\<open>str.lower()\<close> on the ASCII letters; every name it is compared with below is ASCII.\<close>

definition lower_chr :: "char \<Rightarrow> char" where
  "lower_chr c =
     (case map_of (zip ''ABCDEFGHIJKLMNOPQRSTUVWXYZ'' ''abcdefghijklmnopqrstuvwxyz'') c of
        Some d \<Rightarrow> d
      | None \<Rightarrow> c)"

definition lower :: "string \<Rightarrow> string" where
  "lower s = map lower_chr s"

definition digit_chr :: "nat \<Rightarrow> char" where
  "digit_chr n = ''0123456789'' ! (n mod 10)"

definition digit_val :: "char \<Rightarrow> nat" where
  "digit_val c = of_char c - 48"

text \<open>
  \<^verbatim>\<open>int(s)\<close> on the strings the date parser hands it: optional surrounding whitespace around
  decimal digits. \<open>None\<close> is Python's ValueError.
\<close>

definition py_int :: "string \<Rightarrow> nat option" where
  "py_int s =
     (let t = strip s
      in if t \<noteq> [] \<and> list_all isdigit t
         then Some (foldl (\<lambda>a c. 10 * a + digit_val c) 0 t)
         else None)"

text \<open>Zero-padded decimal fields of \<^verbatim>\<open>strftime\<close> (\<^verbatim>\<open>%Y\<close> four digits, \<^verbatim>\<open>%m\<close> and \<^verbatim>\<open>%d\<close> two).\<close>

definition pad2 :: "nat \<Rightarrow> string" where
  "pad2 n = [digit_chr (n div 10), digit_chr n]"

definition pad4 :: "nat \<Rightarrow> string" where
  "pad4 n = [digit_chr (n div 1000), digit_chr (n div 100), digit_chr (n div 10), digit_chr n]"

text \<open>\<^verbatim>\<open>str(n)\<close> for a natural number.\<close>

function py_str :: "nat \<Rightarrow> string" where
  "py_str n = (if n < 10 then [digit_chr n] else py_str (n div 10) @ [digit_chr n])"
  by pat_completeness auto
termination
  by (relation "measure id") auto

declare py_str.simps [simp del]

text \<open>The format specification \<^verbatim>\<open>{n:02d}\<close>: at least two digits, zero-padded.\<close>

definition fmt_02d :: "nat \<Rightarrow> string" where
  "fmt_02d n = (if n < 10 then CHR ''0'' # py_str n else py_str n)"


section \<open>The library's date parser: \<^verbatim>\<open>datetime.strptime\<close>\<close>

text \<open>
  \<^verbatim>\<open>parseAndFormatDate\<close> calls \<^verbatim>\<open>datetime.strptime\<close> with eleven fixed formats. CPython turns a
  format into a regular expression (\<^verbatim>\<open>_strptime.TimeRE.pattern\<close>), matches it against the
  start of the data with \<^verbatim>\<open>re.match\<close> under \<^verbatim>\<open>IGNORECASE\<close>, raises ValueError when there is no
  match or when the match stops before the end of the data, converts the named groups, and
  builds the \<^verbatim>\<open>datetime\<close>, whose constructor raises ValueError on an impossible date.

  A regular expression is modelled by the list of its matches at the start of a string, as
  pairs (matched text, rest), in the order in which a backtracking matcher finds them:
  the head of the list is the match \<^verbatim>\<open>re.match\<close> returns.
\<close>

type_synonym rx = "string \<Rightarrow> (string \<times> string) list"

definition rx_eps :: rx where
  "rx_eps s = [([], s)]"

definition rx_in :: "string \<Rightarrow> rx" where
  "rx_in cs s = (case s of [] \<Rightarrow> [] | c # r \<Rightarrow> if c \<in> set cs then [([c], r)] else [])"

definition rx_seq :: "rx \<Rightarrow> rx \<Rightarrow> rx" where
  "rx_seq p q s = concat (map (\<lambda>(a, r). map (\<lambda>(b, r'). (a @ b, r')) (q r)) (p s))"

definition rx_cat :: "rx list \<Rightarrow> rx" where
  "rx_cat ps = foldr rx_seq ps rx_eps"

definition rx_alts :: "rx list \<Rightarrow> rx" where
  "rx_alts ps s = concat (map (\<lambda>p. p s) ps)"

text \<open>The greedy \<^verbatim>\<open>p?\<close>, and \<^verbatim>\<open>p{0,n}\<close>.\<close>

definition rx_opt :: "rx \<Rightarrow> rx" where
  "rx_opt p s = p s @ [([], s)]"

primrec rx_upto :: "nat \<Rightarrow> rx \<Rightarrow> rx" where
  "rx_upto 0 p = rx_eps"
| "rx_upto (Suc n) p = rx_opt (rx_seq p (rx_upto n p))"

definition rx_digit :: rx where
  "rx_digit = rx_in ''0123456789''"

text \<open>The greedy \<^verbatim>\<open>\s*\<close> and \<^verbatim>\<open>\s+\<close>: the longest run of whitespace first.\<close>

primrec rx_ws_star :: rx where
  "rx_ws_star [] = [([], [])]"
| "rx_ws_star (c # cs) =
     (if isspace c then map (\<lambda>(a, r). (c # a, r)) (rx_ws_star cs) @ [([], c # cs)]
      else [([], c # cs)])"

definition rx_ws_plus :: rx where
  "rx_ws_plus s = filter (\<lambda>(a, r). a \<noteq> []) (rx_ws_star s)"

text \<open>
  \<^verbatim>\<open>TimeRE.__seqToRE\<close>: an alternation of names, the longest first (\<^verbatim>\<open>sorted(key=len,
  reverse=True)\<close>, a stable sort), each matched without regard to case.
\<close>

definition ci_prefix :: "string \<Rightarrow> string \<Rightarrow> bool" where
  "ci_prefix n s = (length n \<le> length s \<and> lower (take (length n) s) = lower n)"

definition seqToRE :: "string list \<Rightarrow> rx" where
  "seqToRE to_convert s =
     map (\<lambda>n. (take (length n) s, drop (length n) s))
       (filter (\<lambda>n. ci_prefix n s) (sort_key (\<lambda>n. - int (length n)) to_convert))"

text \<open>
  The names of \<^verbatim>\<open>LocaleTime\<close>. The program never calls \<^verbatim>\<open>setlocale\<close>, so \<^verbatim>\<open>LC_TIME\<close> is the C
  locale and the names are the English ones. The time zone names are \<^verbatim>\<open>utc\<close>, \<^verbatim>\<open>gmt\<close> and the
  lower-cased local names of \<^verbatim>\<open>time.tzname\<close>, which belong to the machine: they are the parameter
  \<open>tzname\<close> of everything below (ASCII names, as the C library has them). The model follows
  \<^verbatim>\<open>_strptime.py\<close> as it stands in CPython 3.7 to 3.12.
\<close>

definition a_weekday :: "string list" where
  "a_weekday = [''mon'', ''tue'', ''wed'', ''thu'', ''fri'', ''sat'', ''sun'']"

definition a_month :: "string list" where
  "a_month = ['''', ''jan'', ''feb'', ''mar'', ''apr'', ''may'', ''jun'', ''jul'', ''aug'', ''sep'',
              ''oct'', ''nov'', ''dec'']"

definition f_month :: "string list" where
  "f_month = ['''', ''january'', ''february'', ''march'', ''april'', ''may'', ''june'', ''july'',
              ''august'', ''september'', ''october'', ''november'', ''december'']"

definition timezone :: "string list \<Rightarrow> string list" where
  "timezone tzname = [''utc'', ''gmt''] @ tzname"

text \<open>
  The table of \<^verbatim>\<open>TimeRE\<close>, for the directives the program's formats use; \<open>None\<close> is the
  KeyError of any other character, which \<^verbatim>\<open>_strptime\<close> turns into ValueError.
\<close>

definition TimeRE :: "string list \<Rightarrow> char \<Rightarrow> rx option" where
  "TimeRE tzname d =
     (if d = CHR ''d'' then Some (rx_alts [rx_cat [rx_in ''3'', rx_in ''01''],
                                           rx_cat [rx_in ''12'', rx_digit],
                                           rx_cat [rx_in ''0'', rx_in ''123456789''],
                                           rx_in ''123456789'',
                                           rx_cat [rx_in '' '', rx_in ''123456789'']])
      else if d = CHR ''H'' then Some (rx_alts [rx_cat [rx_in ''2'', rx_in ''0123''],
                                                rx_cat [rx_in ''01'', rx_digit],
                                                rx_digit])
      else if d = CHR ''m'' then Some (rx_alts [rx_cat [rx_in ''1'', rx_in ''012''],
                                                rx_cat [rx_in ''0'', rx_in ''123456789''],
                                                rx_in ''123456789''])
      else if d = CHR ''M'' then Some (rx_alts [rx_cat [rx_in ''012345'', rx_digit], rx_digit])
      else if d = CHR ''S'' then Some (rx_alts [rx_cat [rx_in ''6'', rx_in ''01''],
                                                rx_cat [rx_in ''012345'', rx_digit],
                                                rx_digit])
      else if d = CHR ''Y'' then Some (rx_cat [rx_digit, rx_digit, rx_digit, rx_digit])
      else if d = CHR ''z'' then
        Some (rx_alts
          [rx_cat [rx_in ''+-'', rx_digit, rx_digit, rx_opt (rx_in '':''), rx_in ''012345'', rx_digit,
                   rx_opt (rx_cat [rx_opt (rx_in '':''), rx_in ''012345'', rx_digit,
                                   rx_opt (rx_cat [rx_in ''.'', rx_digit, rx_upto 5 rx_digit])])],
           rx_in ''Z''])
      else if d = CHR ''a'' then Some (seqToRE a_weekday)
      else if d = CHR ''B'' then Some (seqToRE (tl f_month))
      else if d = CHR ''b'' then Some (seqToRE (tl a_month))
      else if d = CHR ''Z'' then Some (seqToRE (timezone tzname))
      else None)"

text \<open>
  \<^verbatim>\<open>TimeRE.pattern\<close>: a run of whitespace in the format becomes \<^verbatim>\<open>\s+\<close>, \<^verbatim>\<open>%x\<close> the expression of
  the directive \<^verbatim>\<open>x\<close>, and any other character stands for itself. The flag says that the
  previous character was whitespace. A lone \<^verbatim>\<open>%\<close> at the end is the "stray %" ValueError:
  the directive \<open>%\<close> has no entry in the table above.
\<close>

datatype tok = Lit char | Ws | Dir char

fun pattern :: "bool \<Rightarrow> string \<Rightarrow> tok list" where
  "pattern inws [] = []"
| "pattern inws [c] =
     (if c = CHR ''%'' then [Dir c]
      else if isspace c then (if inws then [] else [Ws])
      else [Lit c])"
| "pattern inws (c # d # cs) =
     (if c = CHR ''%'' then Dir d # pattern False cs
      else if isspace c then (if inws then pattern True (d # cs) else Ws # pattern True (d # cs))
      else Lit c # pattern False (d # cs))"

text \<open>
  The matches of a compiled format, each with its named groups (directive, matched text) in
  the order of the format.
\<close>

primrec rx_format :: "string list \<Rightarrow> tok list \<Rightarrow> string \<Rightarrow> ((char \<times> string) list \<times> string) list" where
  "rx_format tzname [] = (\<lambda>s. [([], s)])"
| "rx_format tzname (t # ts) =
     (\<lambda>s. case t of
        Lit c \<Rightarrow> (case s of
                    [] \<Rightarrow> []
                  | x # xs \<Rightarrow> if lower_chr x = lower_chr c then rx_format tzname ts xs else [])
      | Ws \<Rightarrow> concat (map (\<lambda>(a, r). rx_format tzname ts r) (rx_ws_plus s))
      | Dir d \<Rightarrow> (case TimeRE tzname d of
                    None \<Rightarrow> []
                  | Some p \<Rightarrow>
                      concat (map (\<lambda>(a, r). map (\<lambda>(g, r'). ((d, a) # g, r')) (rx_format tzname ts r))
                                (p s))))"

text \<open>The fields \<^verbatim>\<open>_strptime\<close> collects, with its defaults.\<close>

record struct_time =
  st_year :: "nat option"
  st_month :: nat
  st_day :: nat
  st_hour :: nat
  st_minute :: nat
  st_second :: nat
  st_weekday :: "nat option"
  st_gmtoff :: "int option"

definition st_default :: struct_time where
  "st_default = \<lparr>st_year = None, st_month = 1, st_day = 1, st_hour = 0, st_minute = 0,
                  st_second = 0, st_weekday = None, st_gmtoff = None\<rparr>"

primrec index_of :: "'a list \<Rightarrow> 'a \<Rightarrow> nat option" where
  "index_of [] x = None"
| "index_of (y # ys) x = (if y = x then Some 0 else map_option Suc (index_of ys x))"

text \<open>
  The conversion of the group \<^verbatim>\<open>z\<close> to an offset in seconds; \<open>None\<close> is the ValueError of
  "Inconsistent use of :" or of \<^verbatim>\<open>int\<close> on a slice that holds a colon. The fraction of a
  second, which is less than one second, is left out: it cannot change whether the offset
  is below 24 hours.
\<close>

definition slice :: "nat \<Rightarrow> nat \<Rightarrow> string \<Rightarrow> string" where
  "slice i j s = take (j - i) (drop i s)"

definition conv_z :: "string \<Rightarrow> int option" where
  "conv_z z0 =
     (if z0 = ''Z'' then Some 0
      else
        let colon3 = (slice 3 4 z0 = '':'');
            z1 = (if colon3 then take 3 z0 @ drop 4 z0 else z0);
            long = (colon3 \<and> 5 < length z1)
        in if long \<and> slice 5 6 z1 \<noteq> '':'' then None
           else
             let z = (if long then take 5 z1 @ drop 6 z1 else z1)
             in case (py_int (slice 1 3 z), py_int (slice 3 5 z),
                      if slice 5 7 z = [] then Some 0 else py_int (slice 5 7 z)) of
                  (Some hours, Some minutes, Some seconds) \<Rightarrow>
                    let gmtoff = int (hours * 60 * 60 + minutes * 60 + seconds)
                    in Some (if take 1 z = ''-'' then - gmtoff else gmtoff)
                | _ \<Rightarrow> None)"

text \<open>
  One step of the loop over the groups. The group \<^verbatim>\<open>Z\<close> only sets the daylight-saving flag
  of the time tuple, which \<^verbatim>\<open>datetime.strptime\<close> drops.
\<close>

definition convert_group :: "char \<times> string \<Rightarrow> struct_time \<Rightarrow> struct_time option" where
  "convert_group kv st =
     (let group_key = fst kv; found = snd kv
      in if group_key = CHR ''Y'' then map_option (\<lambda>n. st\<lparr>st_year := Some n\<rparr>) (py_int found)
         else if group_key = CHR ''m'' then map_option (\<lambda>n. st\<lparr>st_month := n\<rparr>) (py_int found)
         else if group_key = CHR ''B'' then
           map_option (\<lambda>n. st\<lparr>st_month := n\<rparr>) (index_of f_month (lower found))
         else if group_key = CHR ''b'' then
           map_option (\<lambda>n. st\<lparr>st_month := n\<rparr>) (index_of a_month (lower found))
         else if group_key = CHR ''d'' then map_option (\<lambda>n. st\<lparr>st_day := n\<rparr>) (py_int found)
         else if group_key = CHR ''H'' then map_option (\<lambda>n. st\<lparr>st_hour := n\<rparr>) (py_int found)
         else if group_key = CHR ''M'' then map_option (\<lambda>n. st\<lparr>st_minute := n\<rparr>) (py_int found)
         else if group_key = CHR ''S'' then map_option (\<lambda>n. st\<lparr>st_second := n\<rparr>) (py_int found)
         else if group_key = CHR ''a'' then
           map_option (\<lambda>n. st\<lparr>st_weekday := Some n\<rparr>) (index_of a_weekday (lower found))
         else if group_key = CHR ''z'' then map_option (\<lambda>n. st\<lparr>st_gmtoff := Some n\<rparr>) (conv_z found)
         else Some st)"

primrec convert_groups :: "(char \<times> string) list \<Rightarrow> struct_time \<Rightarrow> struct_time option" where
  "convert_groups [] st = Some st"
| "convert_groups (kv # kvs) st =
     (case convert_group kv st of None \<Rightarrow> None | Some st' \<Rightarrow> convert_groups kvs st')"

text \<open>
  The \<^verbatim>\<open>datetime\<close> object, and the checks of its constructor (and of \<^verbatim>\<open>timezone\<close>, whose offset
  must lie strictly within 24 hours). A missing year is 1900.
\<close>

record datetime =
  dt_year :: nat
  dt_month :: nat
  dt_day :: nat
  dt_hour :: nat
  dt_minute :: nat
  dt_second :: nat
  dt_utcoffset :: "int option"

definition isleap :: "nat \<Rightarrow> bool" where
  "isleap y = (y mod 4 = 0 \<and> (0 < y mod 100 \<or> y mod 400 = 0))"

definition days_in_month :: "nat \<Rightarrow> nat \<Rightarrow> nat" where
  "days_in_month y m =
     (if m = 2 then (if isleap y then 29 else 28)
      else if m \<in> set [4, 6, 9, 11] then 30
      else 31)"

definition valid_date :: "nat \<Rightarrow> nat \<Rightarrow> nat \<Rightarrow> bool" where
  "valid_date y m d = (1 \<le> y \<and> y \<le> 9999 \<and> 1 \<le> m \<and> m \<le> 12 \<and> 1 \<le> d \<and> d \<le> days_in_month y m)"

definition valid_offset :: "int option \<Rightarrow> bool" where
  "valid_offset off = (case off of None \<Rightarrow> True | Some g \<Rightarrow> - 86400 < g \<and> g < 86400)"

definition mk_datetime :: "struct_time \<Rightarrow> datetime option" where
  "mk_datetime st =
     (let year = (case st_year st of None \<Rightarrow> 1900 | Some y \<Rightarrow> y)
      in if valid_date year (st_month st) (st_day st) \<and> st_hour st < 24 \<and> st_minute st < 60
            \<and> st_second st < 60 \<and> valid_offset (st_gmtoff st)
         then Some \<lparr>dt_year = year, dt_month = st_month st, dt_day = st_day st,
                    dt_hour = st_hour st, dt_minute = st_minute st, dt_second = st_second st,
                    dt_utcoffset = st_gmtoff st\<rparr>
         else None)"

text \<open>\<^verbatim>\<open>datetime.strptime(data_string, format)\<close>; \<open>None\<close> is ValueError.\<close>

definition strptime :: "string list \<Rightarrow> string \<Rightarrow> string \<Rightarrow> datetime option" where
  "strptime tzname data_string format =
     (case rx_format tzname (pattern False format) data_string of
        [] \<Rightarrow> None
      | (found_dict, rest) # _ \<Rightarrow>
          if rest \<noteq> [] then None
          else (case convert_groups found_dict st_default of
                  None \<Rightarrow> None
                | Some st \<Rightarrow> mk_datetime st))"

text \<open>
  \<^verbatim>\<open>dtDate.strftime("%Y-%m-%d")\<close>. Python hands the format to the C library, and the C
  libraries differ on \<^verbatim>\<open>%Y\<close> for a year below 1000: the library's documentation shows the year
  zero-filled to four digits, glibc prints it without filling. \<open>zpad\<close> says which one the
  machine does; month and day always have two digits.
\<close>

definition fmt_year :: "bool \<Rightarrow> nat \<Rightarrow> string" where
  "fmt_year zpad y = (if zpad then pad4 y else py_str y)"

definition strftime_Ymd :: "bool \<Rightarrow> datetime \<Rightarrow> string" where
  "strftime_Ymd zpad dt =
     fmt_year zpad (dt_year dt) @ ''-'' @ pad2 (dt_month dt) @ ''-'' @ pad2 (dt_day dt)"


section \<open>The Date Normalizer: \<^verbatim>\<open>parseAndFormatDate\<close>\<close>

definition lDateFormats :: "string list" where
  "lDateFormats =
     [''%m/%d/%Y'',
      ''%m-%d-%Y'',
      ''%Y-%m-%d'',
      ''%d/%m/%Y'',
      ''%d-%m-%Y'',
      ''%B %d, %Y'',
      ''%b %d, %Y'',
      ''%a, %d %b %Y %H:%M:%S %Z'',
      ''%a, %d %b %Y %H:%M:%S %z'',
      ''%Y-%m-%dT%H:%M:%S%z'',
      ''%Y-%m-%dT%H:%M:%SZ'']"

text \<open>
  The loop over the formats: the first one that parses returns. The two parameters are the
  machine's: the local time zone names, for \<^verbatim>\<open>strptime\<close>, and whether the C library zero-fills
  the year, for \<^verbatim>\<open>strftime\<close>.
\<close>

primrec try_formats :: "string list \<Rightarrow> bool \<Rightarrow> string \<Rightarrow> string list \<Rightarrow> string" where
  "try_formats tzname zpad sDate [] = sDate"
| "try_formats tzname zpad sDate (sFmt # fmts) =
     (case strptime tzname sDate sFmt of
        Some dtDate \<Rightarrow> strftime_Ymd zpad dtDate
      | None \<Rightarrow> try_formats tzname zpad sDate fmts)"

definition parseAndFormatDate :: "string list \<Rightarrow> bool \<Rightarrow> string \<Rightarrow> string" where
  "parseAndFormatDate tzname zpad sDate0 =
     (let sDate = strip sDate0
      in if sDate = [] then [] else try_formats tzname zpad sDate lDateFormats)"



section \<open>The spider\<close>

text \<open>
  The configuration dictionary \<^verbatim>\<open>dConfigData\<close>: a key that is absent is \<open>None\<close>, and
  \<^verbatim>\<open>dConfigData.get(key, default)\<close> is \<open>dict_get default\<close>.
\<close>

record config =
  cfg_startUrl :: "string option"
  cfg_urlList :: "string option"
  cfg_maxUrls :: "int option"
  cfg_crawlDepth :: "int option"
  cfg_parentDir :: "string option"
  cfg_robotFilter :: "bool option"
  cfg_userAgent :: "string option"
  cfg_log :: "bool option"

definition dict_get :: "'a \<Rightarrow> 'a option \<Rightarrow> 'a" where
  "dict_get dflt v = (case v of None \<Rightarrow> dflt | Some x \<Rightarrow> x)"

text \<open>
  What the spider reads of a downloaded page. The document queries are Scrapy's: the title
  is \<^verbatim>\<open>response.xpath("//title/text()").get()\<close>, \<open>resp_hrefs\<close> holds
  \<^verbatim>\<open>response.urljoin(href)\<close> for every \<^verbatim>\<open>a[@href]\<close> in document order, \<open>resp_controls\<close> is the length of
  the controls query, \<open>resp_body_len\<close> is \<^verbatim>\<open>len(response.body)\<close>, and each meta field is the
  \<^verbatim>\<open>.get()\<close> of the \<^verbatim>\<open>@content\<close> query for that tag (\<open>None\<close> when there is no such tag).
\<close>

record response =
  resp_url :: string
  resp_title :: "string option"
  resp_hrefs :: "string list"
  resp_controls :: nat
  resp_body_len :: nat
  resp_last_modified :: "string option"
  resp_meta_last_modified :: "string option"
  resp_meta_article_modified_time :: "string option"
  resp_meta_last_modified_us :: "string option"
  resp_meta_modified :: "string option"

text \<open>
  The library functions and the machine the spider depends on: the local time zone names,
  whether the C library zero-fills the year, \<^verbatim>\<open>email.utils.parsedate_to_datetime\<close> on the
  decoded header (\<open>None\<close> when decoding or parsing raises), and the \<^verbatim>\<open>netloc\<close> and \<^verbatim>\<open>path\<close> of
  \<^verbatim>\<open>urllib.parse.urlparse\<close>.
\<close>

record env =
  env_tzname :: "string list"
  env_zero_pad :: bool
  env_parsedate_to_datetime :: "string \<Rightarrow> datetime option"
  env_netloc :: "string \<Rightarrow> string"
  env_path :: "string \<Rightarrow> string"

record item =
  it_url :: string
  it_title :: string
  it_linkCount :: nat
  it_controlCount :: nat
  it_byteCount :: nat
  it_updated :: string

record request =
  req_url :: string
  req_dont_filter :: bool

text \<open>
  What a callback yields, prints, logs or writes, in the order in which it does.
\<close>

datatype out =
    Print string
  | LogError string
  | Yield_item item
  | Yield_request request
  | Write_csv string "item list"
  | Write_log string "string list"

text \<open>
  The attributes of the spider object. \<open>lUrlList\<close> is assigned only in URL list mode,
  \<open>sStartUrl\<close> and \<open>allowed_domains\<close> only in crawl mode: \<open>None\<close> is an attribute that was
  never assigned.
\<close>

record spider =
  dConfigData :: config
  iMaxUrls :: int
  iCrawlDepth :: int
  sParentDir :: string
  lItems :: "item list"
  sStartTitle :: string
  lUrlSet :: "string set"
  bUrlListMode :: bool
  lUrlList :: "string list option"
  sStartUrl :: "string option"
  allowed_domains :: "string list option"
  bPrintedCrawlingMessage :: bool

text \<open>\<^verbatim>\<open>str.splitlines()\<close> on 8-bit characters; \<open>cur\<close> is the line read so far.\<close>

definition is_linebreak :: "char \<Rightarrow> bool" where
  "is_linebreak c = (c \<in> set [CHR 0x0A, CHR 0x0D, CHR 0x0B, CHR 0x0C, CHR 0x1C, CHR 0x1D, CHR 0x1E,
                              CHR 0x85])"

fun splitlines_from :: "string \<Rightarrow> string \<Rightarrow> string list" where
  "splitlines_from cur [] = (if cur = [] then [] else [cur])"
| "splitlines_from cur [c] = (if is_linebreak c then [cur] else [cur @ [c]])"
| "splitlines_from cur (c # d # cs) =
     (if c = CHR 0x0D \<and> d = CHR 0x0A then cur # splitlines_from [] cs
      else if is_linebreak c then cur # splitlines_from [] (d # cs)
      else splitlines_from (cur @ [c]) (d # cs))"

definition splitlines :: "string \<Rightarrow> string list" where
  "splitlines s = splitlines_from [] s"

text \<open>
  \<^verbatim>\<open>spiderCustom.__init__\<close>. \<^verbatim>\<open>list(set(...))\<close> keeps one copy of each URL, in an order Python
  does not specify; \<open>remdups\<close> is one such order. In crawl mode a missing \<^verbatim>\<open>startUrl\<close> makes
  \<^verbatim>\<open>urlparse(None).netloc\<close> a bytes object, on which \<^verbatim>\<open>startswith("www.")\<close> raises TypeError:
  the result \<open>None\<close>. The writes to \<^verbatim>\<open>custom_settings\<close> (depth limit, robots.txt, user agent)
  configure the engine and are left out.
\<close>

definition init :: "env \<Rightarrow> config \<Rightarrow> spider option" where
  "init e cfg =
     (let sp = \<lparr>dConfigData = cfg,
                iMaxUrls = dict_get 30 (cfg_maxUrls cfg),
                iCrawlDepth = dict_get 3 (cfg_crawlDepth cfg),
                sParentDir = dict_get [] (cfg_parentDir cfg),
                lItems = [],
                sStartTitle = [],
                lUrlSet = {},
                bUrlListMode = (strip (dict_get [] (cfg_urlList cfg)) \<noteq> []),
                lUrlList = None,
                sStartUrl = None,
                allowed_domains = None,
                bPrintedCrawlingMessage = False\<rparr>
      in if bUrlListMode sp
         then Some (sp\<lparr>lUrlList :=
                 Some (remdups (map strip (filter (\<lambda>sUrl. strip sUrl \<noteq> [])
                                             (splitlines (dict_get [] (cfg_urlList cfg))))))\<rparr>)
         else (case cfg_startUrl cfg of
                 None \<Rightarrow> None
               | Some u \<Rightarrow>
                   let sDomain = env_netloc e u;
                       sDomain' = (if prefix ''www.'' sDomain then drop 4 sDomain else sDomain)
                   in Some (sp\<lparr>sStartUrl := Some u, allowed_domains := Some [sDomain']\<rparr>)))"

text \<open>
  \<^verbatim>\<open>startRequests\<close>: the requests it yields and the spider afterwards. In URL list mode the
  loop runs over \<open>lUrlList\<close>.
\<close>

primrec start_list :: "string set \<Rightarrow> string list \<Rightarrow> string set \<times> request list" where
  "start_list S [] = (S, [])"
| "start_list S (sUrl # us) =
     (if sUrl \<notin> S
      then (let (S', rs) = start_list (insert sUrl S) us
            in (S', \<lparr>req_url = sUrl, req_dont_filter = True\<rparr> # rs))
      else start_list S us)"

definition startRequests :: "spider \<Rightarrow> spider \<times> request list" where
  "startRequests sp =
     (if bUrlListMode sp
      then (let (S', rs) = start_list (lUrlSet sp) (dict_get [] (lUrlList sp))
            in (sp\<lparr>lUrlSet := S'\<rparr>, rs))
      else (case sStartUrl sp of
              None \<Rightarrow> (sp, [])
            | Some u \<Rightarrow> (sp\<lparr>lUrlSet := insert u (lUrlSet sp)\<rparr>,
                          [\<lparr>req_url = u, req_dont_filter = False\<rparr>])))"

text \<open>
  The resolution of \<^verbatim>\<open>sUpdatedDate\<close> in \<^verbatim>\<open>parse\<close>. \<open>meta_step\<close> is one
  \<^verbatim>\<open>sMeta = ... .get() or ""; if sMeta: sUpdatedDate = parseAndFormatDate(sMeta)\<close>.
\<close>

definition meta_step :: "env \<Rightarrow> string option \<Rightarrow> string \<Rightarrow> string" where
  "meta_step e got sUpdatedDate =
     (let sMeta = dict_get [] got
      in if sMeta \<noteq> [] then parseAndFormatDate (env_tzname e) (env_zero_pad e) sMeta else sUpdatedDate)"

definition updated_date :: "env \<Rightarrow> response \<Rightarrow> string" where
  "updated_date e r =
     (let s0 = (case resp_last_modified r of
                  None \<Rightarrow> []
                | Some h \<Rightarrow> (case env_parsedate_to_datetime e h of
                               None \<Rightarrow> []
                             | Some dtLast \<Rightarrow> strftime_Ymd (env_zero_pad e) dtLast))
      in if s0 \<noteq> [] then s0
         else
           let s1 = meta_step e (resp_meta_last_modified r) s0;
               s2 = (if s1 = [] then meta_step e (resp_meta_article_modified_time r) s1 else s1);
               s3 = (if s2 = [] then meta_step e (resp_meta_last_modified_us r) s2 else s2);
               s4 = (if s3 = [] then meta_step e (resp_meta_modified r) s3 else s3)
           in s4)"

text \<open>The loop over \<open>lHrefSet\<close> at the end of \<^verbatim>\<open>parse\<close>.\<close>

primrec follow :: "env \<Rightarrow> string \<Rightarrow> string set \<Rightarrow> string list \<Rightarrow> string set \<times> out list" where
  "follow e sParent S [] = (S, [])"
| "follow e sParent S (sNextUrl # us) =
     (if sParent \<noteq> [] \<and> \<not> prefix sParent (env_path e sNextUrl) then follow e sParent S us
      else if sNextUrl \<in> S then follow e sParent S us
      else (let (S', outs) = follow e sParent (insert sNextUrl S) us
            in (S', Yield_request \<lparr>req_url = sNextUrl, req_dont_filter = False\<rparr> # outs)))"

definition py_str_int :: "int \<Rightarrow> string" where
  "py_str_int i = (if i < 0 then ''-'' @ py_str (nat (- i)) else py_str (nat i))"

text \<open>
  \<^verbatim>\<open>spiderCustom.parse\<close>. The set \<open>lHrefSet\<close> is the list of its elements without
  repetition.
\<close>

definition parse :: "env \<Rightarrow> spider \<Rightarrow> response \<Rightarrow> spider \<times> out list" where
  "parse e sp r =
     (let sUrl = resp_url r;
          sTitle = dict_get [] (resp_title r);
          announce = (\<not> bUrlListMode sp \<and> \<not> bPrintedCrawlingMessage sp);
          sp1 = (if announce then sp\<lparr>bPrintedCrawlingMessage := True\<rparr> else sp);
          sp2 = (if sStartTitle sp1 = [] then sp1\<lparr>sStartTitle := sTitle\<rparr> else sp1);
          lHrefSet = remdups (resp_hrefs r);
          dItem = \<lparr>it_url = sUrl, it_title = sTitle, it_linkCount = length lHrefSet,
                   it_controlCount = resp_controls r, it_byteCount = resp_body_len r,
                   it_updated = updated_date e r\<rparr>;
          sp3 = sp2\<lparr>lItems := lItems sp2 @ [dItem]\<rparr>;
          outs = (if announce then [Print (''Crawling '' @ sUrl)] else [])
                 @ [Print sTitle, Yield_item dItem]
      in if bUrlListMode sp3 then (sp3, outs)
         else if int (card (lUrlSet sp3)) < iMaxUrls sp3
         then (let (S', reqs) = follow e (sParentDir sp3) (lUrlSet sp3) lHrefSet
               in (sp3\<lparr>lUrlSet := S'\<rparr>, outs @ reqs))
         else (sp3, outs @ [LogError (''Reached maximum URL count: '' @ py_str_int (iMaxUrls sp3))]))"

text \<open>
  The module-level \<^verbatim>\<open>MEM_LOG_HANDLER = None\<close>. No statement of the program assigns it again,
  and the class \<^verbatim>\<open>memoryLogHandler\<close> is never instantiated: this is its value whenever
  \<^verbatim>\<open>closed\<close> runs. A handler would hold its list \<open>lLogRecords\<close>.
\<close>

definition MEM_LOG_HANDLER :: "string list option" where
  "MEM_LOG_HANDLER = None"

text \<open>
  The file system at shutdown: which paths exist, and for which paths opening and writing
  the file succeeds.
\<close>

record fs =
  fs_exists :: "string \<Rightarrow> bool"
  fs_write_ok :: "string \<Rightarrow> bool"

text \<open>
  The \<^verbatim>\<open>while os.path.exists(sCsvFile)\<close> loop of \<^verbatim>\<open>closed\<close>. It does not end when every
  candidate name exists: the value \<open>None\<close>.
\<close>

partial_function (option) pick_csv :: "(string \<Rightarrow> bool) \<Rightarrow> string \<Rightarrow> string \<Rightarrow> nat \<Rightarrow> string option" where
  "pick_csv path_exists sCsvRoot sCsvFile iSuffix =
     (if path_exists sCsvFile
      then pick_csv path_exists sCsvRoot (sCsvRoot @ ''-'' @ fmt_02d iSuffix @ ''.csv'') (iSuffix + 1)
      else Some sCsvFile)"

text \<open>The characters removed by \<^verbatim>\<open>re.sub(r'[\\\/:*?"<>|]', "", sRootName)\<close>.\<close>

definition unsafe_chars :: "char list" where
  "unsafe_chars = [CHR 0x5C, CHR ''/'', CHR '':'', CHR ''*'', CHR ''?'', CHR 0x22, CHR ''<'', CHR ''>'',
                   CHR ''|'']"

definition csv_root :: "spider \<Rightarrow> string" where
  "csv_root sp =
     (let sRootName = (if strip (sStartTitle sp) \<noteq> [] then strip (sStartTitle sp) else ''output'')
      in filter (\<lambda>c. c \<notin> set unsafe_chars) sRootName)"

text \<open>
  \<^verbatim>\<open>spiderCustom.closed\<close>, given the file system and the value of the global handler. The text
  of the exception in the two error messages is left out.
\<close>

definition closed :: "fs \<Rightarrow> string list option \<Rightarrow> spider \<Rightarrow> out list option" where
  "closed f handler sp =
     (let sCsvRoot = csv_root sp
      in case pick_csv (fs_exists f) sCsvRoot (sCsvRoot @ ''.csv'') 1 of
           None \<Rightarrow> None
         | Some sCsvFile \<Rightarrow>
             if \<not> fs_write_ok f sCsvFile then Some [LogError ''Failed to write CSV file'']
             else
               let sLogFile = sCsvRoot @ ''.log'';
                   logs = (case handler of
                             None \<Rightarrow> []
                           | Some lLogRecords \<Rightarrow>
                               if dict_get False (cfg_log (dConfigData sp))
                               then (if fs_write_ok f sLogFile then [Write_log sLogFile lLogRecords]
                                     else [LogError ''Failed to write log file''])
                               else [])
               in Some ([Write_csv sCsvFile (lItems sp)] @ logs
                        @ [Print (''Saved '' @ py_str (length (lItems sp)) @ '' links to '' @ sCsvFile)]))"

text \<open>
  Scrapy's engine, as far as the spider can tell: requests wait in a queue, each is handed
  to the downloader, and the callback \<^verbatim>\<open>parse\<close> runs on every response. \<open>fetch\<close> is the
  downloader with its middlewares: \<open>None\<close> when the request is dropped (duplicate filter,
  off-site, depth limit, robots.txt) or the download fails. The engine here takes the requests
  one at a time, first in first out; \<open>n\<close> bounds the number of requests it takes, and the
  result is \<open>None\<close> when requests are left over. It returns the spider, everything the
  callbacks put out, and the requests it dispatched.
\<close>

definition requests_of :: "out list \<Rightarrow> request list" where
  "requests_of outs = concat (map (\<lambda>x. case x of Yield_request rq \<Rightarrow> [rq] | _ \<Rightarrow> []) outs)"

primrec engine :: "nat \<Rightarrow> env \<Rightarrow> (request \<Rightarrow> response option) \<Rightarrow> spider \<Rightarrow> request list
    \<Rightarrow> (spider \<times> out list \<times> request list) option" where
  "engine 0 e fetch sp q = (if q = [] then Some (sp, [], []) else None)"
| "engine (Suc n) e fetch sp q =
     (case q of
        [] \<Rightarrow> Some (sp, [], [])
      | rq # q' \<Rightarrow>
          (case fetch rq of
             None \<Rightarrow> map_option (\<lambda>(sp', outs, done). (sp', outs, rq # done)) (engine n e fetch sp q')
           | Some r \<Rightarrow>
               (case parse e sp r of
                  (sp1, outs1) \<Rightarrow>
                    map_option (\<lambda>(sp', outs, done). (sp', outs1 @ outs, rq # done))
                      (engine n e fetch sp1 (q' @ requests_of outs1)))))"

text \<open>
  Scrapy promises no order among the requests that wait: the engine as a relation. One step
  takes any waiting request; when the downloader brings a response the callback runs, and
  the requests it yields wait in turn. \<open>engine_run\<close> is any number of such steps, and a
  crawl is complete when no request waits. The function \<open>engine\<close> above is the schedule that
  always takes the oldest request.
\<close>

inductive engine_step :: "env \<Rightarrow> (request \<Rightarrow> response option) \<Rightarrow> spider \<times> request list
    \<Rightarrow> spider \<times> request list \<Rightarrow> bool"
  for e :: env and fetch :: "request \<Rightarrow> response option" where
    no_response: "fetch rq = None \<Longrightarrow> engine_step e fetch (sp, xs @ rq # ys) (sp, xs @ ys)"
  | callback: "fetch rq = Some r \<Longrightarrow> parse e sp r = (sp', outs) \<Longrightarrow>
               engine_step e fetch (sp, xs @ rq # ys) (sp', xs @ ys @ requests_of outs)"

code_pred engine_step .

definition engine_run :: "env \<Rightarrow> (request \<Rightarrow> response option) \<Rightarrow> spider \<times> request list
    \<Rightarrow> spider \<times> request list \<Rightarrow> bool" where
  "engine_run e fetch = (engine_step e fetch)\<^sup>*\<^sup>*"

text \<open>A whole run: construction, the start requests, the crawl, and \<^verbatim>\<open>closed\<close>.\<close>

definition run :: "nat \<Rightarrow> env \<Rightarrow> (request \<Rightarrow> response option) \<Rightarrow> fs \<Rightarrow> config \<Rightarrow> out list option" where
  "run n e fetch f cfg =
     (case init e cfg of
        None \<Rightarrow> None
      | Some sp0 \<Rightarrow>
          (case startRequests sp0 of
             (sp1, reqs) \<Rightarrow>
               (case engine n e fetch sp1 reqs of
                  None \<Rightarrow> None
                | Some (sp2, outs, done) \<Rightarrow>
                    (case closed f MEM_LOG_HANDLER sp2 of
                       None \<Rightarrow> None
                     | Some outs' \<Rightarrow> Some (outs @ outs')))))"

declare pick_csv.simps [code]


section \<open>The resolution of \<open>updated\<close> as the specification words it\<close>

text \<open>
  The candidates in the specification's order: the \<^verbatim>\<open>Last-Modified\<close> header, reformatted when
  it parses and absent when it does not, then the four meta tags, each passed through the
  Date Normalizer. The first candidate that is not empty is the result, and the later ones
  play no part in it.
\<close>

definition first_success :: "string list \<Rightarrow> string" where
  "first_success cands = (case filter (\<lambda>s. s \<noteq> []) cands of [] \<Rightarrow> [] | s # _ \<Rightarrow> s)"

definition header_candidate :: "env \<Rightarrow> response \<Rightarrow> string" where
  "header_candidate e r =
     (case resp_last_modified r of
        None \<Rightarrow> []
      | Some h \<Rightarrow> (case env_parsedate_to_datetime e h of
                     None \<Rightarrow> []
                   | Some dt \<Rightarrow> strftime_Ymd (env_zero_pad e) dt))"

definition meta_candidate :: "env \<Rightarrow> string option \<Rightarrow> string" where
  "meta_candidate e got =
     (case got of None \<Rightarrow> [] | Some v \<Rightarrow> parseAndFormatDate (env_tzname e) (env_zero_pad e) v)"

definition updated_spec :: "env \<Rightarrow> response \<Rightarrow> string" where
  "updated_spec e r =
     first_success [header_candidate e r,
                    meta_candidate e (resp_meta_last_modified r),
                    meta_candidate e (resp_meta_article_modified_time r),
                    meta_candidate e (resp_meta_last_modified_us r),
                    meta_candidate e (resp_meta_modified r)]"


section \<open>Example inputs\<close>

text \<open>
  A machine on UTC. The example pages below send no \<^verbatim>\<open>Last-Modified\<close> header and the example
  configurations set no parent directory, so the header parser and the path of a URL are
  never consulted in them.
\<close>

definition env_utc :: env where
  "env_utc = \<lparr>env_tzname = [''utc''], env_zero_pad = False,
              env_parsedate_to_datetime = (\<lambda>h. None),
              env_netloc = (\<lambda>u. ''example.com''), env_path = (\<lambda>u. [])\<rparr>"

definition cfg_none :: config where
  "cfg_none = \<lparr>cfg_startUrl = None, cfg_urlList = None, cfg_maxUrls = None, cfg_crawlDepth = None,
               cfg_parentDir = None, cfg_robotFilter = None, cfg_userAgent = None, cfg_log = None\<rparr>"

text \<open>A page with a URL, a title and links, and nothing else.\<close>

definition page :: "string \<Rightarrow> string option \<Rightarrow> string list \<Rightarrow> response" where
  "page u t hs = \<lparr>resp_url = u, resp_title = t, resp_hrefs = hs, resp_controls = 0, resp_body_len = 0,
                  resp_last_modified = None, resp_meta_last_modified = None,
                  resp_meta_article_modified_time = None, resp_meta_last_modified_us = None,
                  resp_meta_modified = None\<rparr>"

text \<open>A start page titled Example with three links to pages without links.\<close>

definition web_three :: "request \<Rightarrow> response option" where
  "web_three rq =
     (if req_url rq = ''http://example.com''
      then Some (page ''http://example.com'' (Some ''Example'')
                   [''http://example.com/a'', ''http://example.com/b'', ''http://example.com/c''])
      else if req_url rq \<in> set [''http://example.com/a'', ''http://example.com/b'',
                                  ''http://example.com/c'']
      then Some (page (req_url rq) (Some ''Leaf'') [])
      else None)"

definition cfg_two :: config where
  "cfg_two = cfg_none\<lparr>cfg_startUrl := Some ''http://example.com'', cfg_maxUrls := Some 2\<rparr>"

text \<open>A start page without a title element that links to a page titled Foo.\<close>

definition web_untitled :: "request \<Rightarrow> response option" where
  "web_untitled rq =
     (if req_url rq = ''http://example.com''
      then Some (page ''http://example.com'' None [''http://example.com/foo''])
      else if req_url rq = ''http://example.com/foo''
      then Some (page ''http://example.com/foo'' (Some ''Foo'') [])
      else None)"

definition cfg_start :: config where
  "cfg_start = cfg_none\<lparr>cfg_startUrl := Some ''http://example.com''\<rparr>"

text \<open>A single page titled Home, crawled with logging switched on.\<close>

definition web_home :: "request \<Rightarrow> response option" where
  "web_home rq =
     (if req_url rq = ''http://example.com''
      then Some (page ''http://example.com'' (Some ''Home'') [])
      else None)"

definition cfg_home_log :: config where
  "cfg_home_log = cfg_none\<lparr>cfg_startUrl := Some ''http://example.com'', cfg_log := Some True\<rparr>"

definition item_home :: item where
  "item_home = \<lparr>it_url = ''http://example.com'', it_title = ''Home'', it_linkCount = 0,
                 it_controlCount = 0, it_byteCount = 0, it_updated = []\<rparr>"

text \<open>The spider object as that crawl leaves it.\<close>

definition sp_home :: spider where
  "sp_home = \<lparr>dConfigData = cfg_home_log, iMaxUrls = 30, iCrawlDepth = 3, sParentDir = [],
               lItems = [item_home], sStartTitle = ''Home'', lUrlSet = {''http://example.com''},
               bUrlListMode = False, lUrlList = None, sStartUrl = Some ''http://example.com'',
               allowed_domains = Some [''example.com''], bPrintedCrawlingMessage = True\<rparr>"

text \<open>
  Three file systems: an empty writable directory, a writable directory that holds
  \<^verbatim>\<open>Home.csv\<close>, and an empty directory in which no file can be written.
\<close>

definition fs_empty :: fs where
  "fs_empty = \<lparr>fs_exists = (\<lambda>p. False), fs_write_ok = (\<lambda>p. True)\<rparr>"

definition fs_home :: fs where
  "fs_home = \<lparr>fs_exists = (\<lambda>p. p = ''Home.csv''), fs_write_ok = (\<lambda>p. True)\<rparr>"

definition fs_readonly :: fs where
  "fs_readonly = \<lparr>fs_exists = (\<lambda>p. False), fs_write_ok = (\<lambda>p. False)\<rparr>"

text \<open>
  A configuration with both keys: a URL list of four lines (one URL twice, once with
  blanks around it, and an empty line) and a start URL that is not in the list.
\<close>

definition cfg_both :: config where
  "cfg_both = cfg_none\<lparr>cfg_urlList := Some (''http://example.com'' @ [CHR 0x0A]
                                             @ '' http://example.com '' @ [CHR 0x0A]
                                             @ [CHR 0x0A]
                                             @ ''http://example.com/x''),
                         cfg_startUrl := Some ''http://example.org/start''\<rparr>"

text \<open>A page whose only date signal is a meta tag with blanks around a text that is no date.\<close>

definition page_padded_meta :: response where
  "page_padded_meta = (page ''http://example.com'' (Some ''Home'') [])
                        \<lparr>resp_meta_last_modified := Some '' n/a ''\<rparr>"


section \<open>Notions used in the proofs\<close>

text \<open>
  A string holds four digits in a row; a regular expression splits its input when each of
  its matches is a prefix of the input together with the rest.
\<close>

fun four_digits :: "string \<Rightarrow> bool" where
  "four_digits (a # b # c # d # s) =
     ((isdigit a \<and> isdigit b \<and> isdigit c \<and> isdigit d) \<or> four_digits (b # c # d # s))"
| "four_digits s = False"

definition splits :: "rx \<Rightarrow> bool" where
  "splits p = (\<forall>s a r. (a, r) \<in> set (p s) \<longrightarrow> s = a @ r)"


section \<open>Facts about strings and digits\<close>

lemmas str_defs = isspace_def isdigit_def strip_def lower_chr_def lower_def digit_chr_def
  digit_val_def py_int_def pad2_def pad4_def

lemmas rx_defs = rx_eps_def rx_in_def rx_seq_def rx_cat_def rx_alts_def rx_opt_def rx_digit_def
  rx_ws_plus_def

lemmas time_defs = st_default_def convert_group_def isleap_def days_in_month_def valid_date_def
  valid_offset_def mk_datetime_def strptime_def strftime_Ymd_def lDateFormats_def
  parseAndFormatDate_def slice_def conv_z_def a_weekday_def a_month_def f_month_def ci_prefix_def
  seqToRE_def

lemma nat_below_10: "(k::nat) < 10 \<Longrightarrow> k \<in> {0, 1, 2, 3, 4, 5, 6, 7, 8, 9}"
  by auto

lemma digit_chr_cases: "digit_chr n \<in> set ''0123456789''"
proof -
  define k where "k = n mod 10"
  have "k < 10" by (simp add: k_def)
  then have "k \<in> {0, 1, 2, 3, 4, 5, 6, 7, 8, 9}" by (rule nat_below_10)
  then have "''0123456789'' ! k \<in> set ''0123456789''" by auto
  then show ?thesis by (simp only: digit_chr_def k_def)
qed

lemma isdigit_digit_chr [simp]: "isdigit (digit_chr n)"
  using digit_chr_cases by (simp only: isdigit_def)

lemma digit_val_digit_chr [simp]: "digit_val (digit_chr n) = n mod 10"
proof -
  define k where "k = n mod 10"
  have "k < 10" by (simp add: k_def)
  then have "k \<in> {0, 1, 2, 3, 4, 5, 6, 7, 8, 9}" by (rule nat_below_10)
  then have "digit_val (''0123456789'' ! k) = k" by (auto simp: digit_val_def)
  then show ?thesis by (simp only: digit_chr_def k_def)
qed

lemma isdigit_not_space: "isdigit c \<Longrightarrow> \<not> isspace c"
  by (auto simp: isdigit_def isspace_def)

lemma isdigit_lower: "isdigit c \<Longrightarrow> lower_chr c = c"
  by (auto simp: isdigit_def) (simp_all add: lower_chr_def)

lemma isdigit_not_sep: "isdigit c \<Longrightarrow> c \<noteq> CHR ''/'' \<and> c \<noteq> CHR ''-''"
  by (auto simp: isdigit_def)

text \<open>Stripping twice is stripping once.\<close>

lemma strip_strip: "strip (strip s) = strip s"
proof -
  define u where "u = dropWhile isspace s"
  define v where "v = dropWhile isspace (rev u)"
  have t: "strip s = rev v" by (simp add: strip_def u_def v_def)
  show ?thesis
  proof (cases "v = []")
    case True
    then show ?thesis unfolding t by (simp add: strip_def)
  next
    case False
    then have hv: "\<not> isspace (hd v)"
      unfolding v_def by (metis hd_dropWhile)
    from False have "u \<noteq> []" by (auto simp: v_def)
    then have hu: "\<not> isspace (hd u)"
      unfolding u_def by (metis hd_dropWhile)
    have "\<exists>w. rev u = w @ v"
      unfolding v_def by (metis takeWhile_dropWhile_id)
    then obtain w where "rev u = w @ v" by blast
    then have "last v = last (rev u)" using False by simp
    then have "last v = hd u" using \<open>u \<noteq> []\<close> by (simp add: last_rev)
    then have "hd (rev v) = hd u" using False by (simp add: hd_rev)
    then have 1: "dropWhile isspace (rev v) = rev v"
      using hu False by (cases "rev v") auto
    have 2: "dropWhile isspace v = v"
      using hv False by (cases v) auto
    show ?thesis unfolding t by (simp add: strip_def 1 2)
  qed
qed


section \<open>Facts about the date parser\<close>

text \<open>
  A name that is in the list and equals the whole remaining input, case aside, is the
  first match of the alternation: every longer name fails, and no shorter one comes first.
\<close>

lemma seqToRE_whole:
  assumes mem: "n \<in> set names" and low: "lower s = lower n"
  shows "\<exists>rs. seqToRE names s = (s, []) # rs"
proof -
  define key where "key = (\<lambda>n::string. - int (length n))"
  define ms where "ms = filter (\<lambda>n. ci_prefix n s) (sort_key key names)"
  have len: "length s = length n"
    using low by (metis length_map lower_def)
  have "ci_prefix n s"
    using low len by (simp add: ci_prefix_def)
  then have n_ms: "n \<in> set ms"
    using mem by (simp add: ms_def)
  then obtain m rest where ms: "ms = m # rest"
    by (cases ms) auto
  have "sorted (map key ms)"
    unfolding ms_def by (rule sorted_filter) (rule sorted_sort_key)
  then have "key m \<le> key n"
    using n_ms ms by auto
  then have ge: "length n \<le> length m"
    by (simp add: key_def)
  have "m \<in> set ms"
    by (simp add: ms)
  then have "ci_prefix m s"
    by (simp add: ms_def)
  then have "length m \<le> length s"
    by (simp add: ci_prefix_def)
  then have "length m = length s"
    using ge len by simp
  then have "seqToRE names s = (s, []) # map (\<lambda>n. (take (length n) s, drop (length n) s)) rest"
    using ms by (simp add: seqToRE_def ms_def key_def)
  then show ?thesis by blast
qed

lemma lower_chr_sep: "lower_chr (CHR ''/'') = CHR ''/''" "lower_chr (CHR ''-'') = CHR ''-''"
  by (simp_all add: lower_chr_def)

lemma lit_fails:
  assumes "isdigit b" "x = CHR ''/'' \<or> x = CHR ''-''"
  shows "rx_format tzname (Lit x # ts) (b # rest) = []"
  using assms isdigit_not_sep [of b] isdigit_lower [of b] by (auto simp: lower_chr_sep)

lemma TimeRE_m:
  "TimeRE tzname (CHR ''m'') = Some (rx_alts [rx_cat [rx_in ''1'', rx_in ''012''],
                                             rx_cat [rx_in ''0'', rx_in ''123456789''],
                                             rx_in ''123456789''])"
  by (simp add: TimeRE_def)

lemma rx_m_rest:
  assumes "(g, r) \<in> set (rx_alts [rx_cat [rx_in ''1'', rx_in ''012''],
                                   rx_cat [rx_in ''0'', rx_in ''123456789''],
                                   rx_in ''123456789''] (a # b # rest))"
  shows "r = rest \<or> r = b # rest"
  using assms by (auto simp: rx_defs split: if_splits)

text \<open>
  A month directive followed by a separator fails on a string whose second and third
  characters are digits: the month takes one or two characters, and a digit follows.
\<close>

lemma month_fails:
  assumes "isdigit b" "isdigit c" "x = CHR ''/'' \<or> x = CHR ''-''"
  shows "rx_format tzname (Dir (CHR ''m'') # Lit x # ts) (a # b # c # rest) = []"
proof -
  have "rx_format tzname (Lit x # ts) r = []"
    if "(g, r) \<in> set (rx_alts [rx_cat [rx_in ''1'', rx_in ''012''],
                                   rx_cat [rx_in ''0'', rx_in ''123456789''],
                                   rx_in ''123456789''] (a # b # c # rest))" for g r
  proof -
    from rx_m_rest [OF that] have "r = c # rest \<or> r = b # c # rest" .
    then show ?thesis using lit_fails assms by blast
  qed
  then show ?thesis
    by (auto simp: TimeRE_m)
qed

lemma rx_Y_digits:
  assumes "isdigit a" "isdigit b" "isdigit c" "isdigit d"
  shows "rx_cat [rx_digit, rx_digit, rx_digit, rx_digit] (a # b # c # d # rest) = [([a, b, c, d], rest)]"
  using assms by (simp add: rx_defs isdigit_def)

lemma year_step:
  assumes "isdigit a" "isdigit b" "isdigit c" "isdigit d"
  shows "rx_format tzname (Dir (CHR ''Y'') # ts) (a # b # c # d # rest) =
           map (\<lambda>(g, r'). ((CHR ''Y'', [a, b, c, d]) # g, r')) (rx_format tzname ts rest)"
  using rx_Y_digits [OF assms] by (simp add: TimeRE_def)

lemma dash_step: "rx_format tzname (Lit (CHR ''-'') # ts) (CHR ''-'' # rest) = rx_format tzname ts rest"
  by simp

lemma month_range: "1 \<le> m \<Longrightarrow> m \<le> 12 \<Longrightarrow> (m::nat) \<in> {1, 2, 3, 4, 5, 6, 7, 8, 9, 10, 11, 12}"
  by simp arith

lemma day_range:
  "1 \<le> d \<Longrightarrow> d \<le> 31 \<Longrightarrow>
   (d::nat) \<in> {1, 2, 3, 4, 5, 6, 7, 8, 9, 10, 11, 12, 13, 14, 15, 16, 17, 18, 19, 20,
               21, 22, 23, 24, 25, 26, 27, 28, 29, 30, 31}"
  by simp arith

lemma month_step:
  assumes "1 \<le> m" "m \<le> 12"
  shows "rx_format tzname (Dir (CHR ''m'') # Lit (CHR ''-'') # ts) (pad2 m @ CHR ''-'' # rest) =
           map (\<lambda>(g, r'). ((CHR ''m'', pad2 m) # g, r')) (rx_format tzname ts rest)"
  using month_range [OF assms]
  by (elim insertE emptyE; simp add: TimeRE_m rx_defs pad2_def digit_chr_def lower_chr_def)

lemma day_step:
  assumes "1 \<le> d" "d \<le> 31"
  shows "\<exists>rs. rx_format tzname [Dir (CHR ''d'')] (pad2 d) = ([(CHR ''d'', pad2 d)], []) # rs"
  using day_range [OF assms]
  by (elim insertE emptyE; simp add: TimeRE_def rx_defs pad2_def digit_chr_def)

lemma not_space_digit_chr [simp]: "\<not> isspace (digit_chr n)"
  by (rule isdigit_not_space) simp

lemma digits4:
  assumes "y < 10000"
  shows "10 * (10 * (10 * (y div 1000 mod 10) + y div 100 mod 10) + y div 10 mod 10) + y mod 10 = (y::nat)"
proof -
  have "y div 1000 < 10"
    using assms by (intro less_mult_imp_div_less) simp
  then have m: "y div 1000 mod 10 = y div 1000" by simp
  have e3: "10 * (y div 1000) + y div 100 mod 10 = y div 100"
    using mult_div_mod_eq [of 10 "y div 100"] by (simp add: div_mult2_eq [symmetric])
  have e2: "10 * (y div 100) + y div 10 mod 10 = y div 10"
    using mult_div_mod_eq [of 10 "y div 10"] by (simp add: div_mult2_eq [symmetric])
  have e1: "10 * (y div 10) + y mod 10 = y"
    by (rule mult_div_mod_eq)
  show ?thesis by (simp only: m e3 e2 e1)
qed

lemma digits2:
  assumes "m < 100"
  shows "10 * (m div 10 mod 10) + m mod 10 = (m::nat)"
proof -
  have "m div 10 < 10"
    using assms by (intro less_mult_imp_div_less) simp
  then have "m div 10 mod 10 = m div 10" by simp
  then show ?thesis by (simp only: mult_div_mod_eq)
qed

lemma digits4_flat:
  assumes "y < 10000"
  shows "1000 * (y div 1000) + 100 * (y div 100 mod 10) + 10 * (y div 10 mod 10) + y mod 10 = (y::nat)"
  using digits4 [OF assms] assms by simp

lemma py_int_pad4: "y < 10000 \<Longrightarrow> py_int (pad4 y) = Some y"
  by (simp add: py_int_def pad4_def strip_def digits4_flat)

lemma py_int_pad2: "m < 100 \<Longrightarrow> py_int (pad2 m) = Some m"
  by (simp add: py_int_def pad2_def strip_def digits2)

lemma strip_canonical: "strip (pad4 y @ ''-'' @ pad2 m @ ''-'' @ pad2 d) = pad4 y @ ''-'' @ pad2 m @ ''-'' @ pad2 d"
  by (simp add: strip_def pad4_def pad2_def)


lemma pattern_fmt1:
  "pattern False ''%m/%d/%Y'' =
     [Dir (CHR ''m''), Lit (CHR ''/''), Dir (CHR ''d''), Lit (CHR ''/''), Dir (CHR ''Y'')]"
  by (simp add: isspace_def)

lemma pattern_fmt2:
  "pattern False ''%m-%d-%Y'' =
     [Dir (CHR ''m''), Lit (CHR ''-''), Dir (CHR ''d''), Lit (CHR ''-''), Dir (CHR ''Y'')]"
  by (simp add: isspace_def)

lemma pattern_fmt3:
  "pattern False ''%Y-%m-%d'' =
     [Dir (CHR ''Y''), Lit (CHR ''-''), Dir (CHR ''m''), Lit (CHR ''-''), Dir (CHR ''d'')]"
  by (simp add: isspace_def)

lemma canonical_fmt1: "strptime tzname (pad4 y @ ''-'' @ pad2 m @ ''-'' @ pad2 d) ''%m/%d/%Y'' = None"
  unfolding strptime_def pattern_fmt1
  by (simp add: pad4_def pad2_def month_fails del: rx_format.simps)

lemma canonical_fmt2: "strptime tzname (pad4 y @ ''-'' @ pad2 m @ ''-'' @ pad2 d) ''%m-%d-%Y'' = None"
  unfolding strptime_def pattern_fmt2
  by (simp add: pad4_def pad2_def month_fails del: rx_format.simps)

lemma valid_date_bounds:
  "valid_date y m d \<Longrightarrow> 1 \<le> y \<and> y < 10000 \<and> 1 \<le> m \<and> m \<le> 12 \<and> 1 \<le> d \<and> d \<le> 31"
  by (auto simp: valid_date_def days_in_month_def split: if_splits)

lemma canonical_fmt3:
  assumes "valid_date y m d"
  shows "\<exists>dt. strptime tzname (pad4 y @ ''-'' @ pad2 m @ ''-'' @ pad2 d) ''%Y-%m-%d'' = Some dt
           \<and> dt_year dt = y \<and> dt_month dt = m \<and> dt_day dt = d"
proof -
  from valid_date_bounds [OF assms]
  have y: "y < 10000" and m: "1 \<le> m" "m \<le> 12" and d: "1 \<le> d" "d \<le> 31"
    by simp_all
  from day_step [OF d] obtain rs where
    ds: "rx_format tzname [Dir (CHR ''d'')] (pad2 d) = ([(CHR ''d'', pad2 d)], []) # rs"
    by blast
  note pat = pattern_fmt3
  have "rx_format tzname (pattern False ''%Y-%m-%d'') (pad4 y @ ''-'' @ pad2 m @ ''-'' @ pad2 d) =
      map (\<lambda>(g, r'). ((CHR ''Y'', pad4 y) # g, r'))
        (map (\<lambda>(g, r'). ((CHR ''m'', pad2 m) # g, r')) (([(CHR ''d'', pad2 d)], []) # rs))"
    unfolding pat using year_step [of "digit_chr (y div 1000)" "digit_chr (y div 100)" "digit_chr (y div 10)" "digit_chr y"]
      month_step [OF m, of tzname "[Dir (CHR ''d'')]" "pad2 d"] ds
    by (simp add: pad4_def dash_step del: rx_format.simps)
  then have hd: "rx_format tzname (pattern False ''%Y-%m-%d'') (pad4 y @ ''-'' @ pad2 m @ ''-'' @ pad2 d) =
      ([(CHR ''Y'', pad4 y), (CHR ''m'', pad2 m), (CHR ''d'', pad2 d)], []) #
        map (\<lambda>(g, r'). ((CHR ''Y'', pad4 y) # g, r')) (map (\<lambda>(g, r'). ((CHR ''m'', pad2 m) # g, r')) rs)"
    by simp
  have "m < 100" "d < 100" using m d by simp_all
  then have conv: "convert_groups [(CHR ''Y'', pad4 y), (CHR ''m'', pad2 m), (CHR ''d'', pad2 d)] st_default =
      Some (st_default\<lparr>st_year := Some y, st_month := m, st_day := d\<rparr>)"
    using y by (simp add: convert_group_def py_int_pad4 py_int_pad2)
  show ?thesis
    unfolding strptime_def hd
    using assms
    by (simp add: conv del: convert_groups.simps) (simp add: mk_datetime_def st_default_def valid_offset_def)
qed


lemma strptime_valid:
  assumes "strptime tzname s f = Some dt"
  shows "valid_date (dt_year dt) (dt_month dt) (dt_day dt)"
  using assms
  by (auto simp: strptime_def mk_datetime_def Let_def split: list.splits if_splits option.splits prod.splits)

text \<open>
  Every expression of the table splits its input, so a format with the directive \<^verbatim>\<open>%Y\<close>
  matches only a string that holds four digits in a row. All eleven formats have that
  directive.
\<close>

lemma four_digits_Cons: "four_digits r \<Longrightarrow> four_digits (x # r)"
  by (cases r rule: four_digits.cases) simp_all

lemma four_digits_append: "four_digits r \<Longrightarrow> four_digits (a @ r)"
  by (induction a) (simp_all add: four_digits_Cons)

lemma splitsD: "splits p \<Longrightarrow> (a, r) \<in> set (p s) \<Longrightarrow> s = a @ r"
  by (auto simp: splits_def)

lemma splits_eps: "splits rx_eps"
  by (simp add: splits_def rx_eps_def)

lemma splits_in: "splits (rx_in cs)"
  by (auto simp: splits_def rx_in_def split: list.splits if_splits)

lemma splits_seq: "splits p \<Longrightarrow> splits q \<Longrightarrow> splits (rx_seq p q)"
  by (fastforce simp: splits_def rx_seq_def)

lemma splits_alts: "\<forall>p \<in> set ps. splits p \<Longrightarrow> splits (rx_alts ps)"
  by (fastforce simp: splits_def rx_alts_def)

lemma splits_cat: "\<forall>p \<in> set ps. splits p \<Longrightarrow> splits (rx_cat ps)"
  unfolding rx_cat_def by (induction ps) (simp_all add: splits_eps splits_seq)

lemma splits_opt: "splits p \<Longrightarrow> splits (rx_opt p)"
  by (auto simp: splits_def rx_opt_def)

lemma splits_upto: "splits p \<Longrightarrow> splits (rx_upto n p)"
  by (induction n) (simp_all add: splits_eps splits_opt splits_seq)

lemma splits_digit: "splits rx_digit"
  by (simp add: rx_digit_def splits_in)

lemma splits_seqToRE: "splits (seqToRE names)"
  by (auto simp: splits_def seqToRE_def)

lemma rx_ws_star_splits: "(a, r) \<in> set (rx_ws_star s) \<Longrightarrow> s = a @ r"
  by (induction s arbitrary: a r) (auto split: if_splits)

lemma splits_ws_plus: "splits rx_ws_plus"
  by (auto simp: splits_def rx_ws_plus_def dest: rx_ws_star_splits)

lemmas splits_intros = splits_eps splits_in splits_seq splits_alts splits_cat splits_opt splits_upto
  splits_digit splits_seqToRE

lemma splits_TimeRE: "TimeRE tzname d = Some p \<Longrightarrow> splits p"
  by (auto simp: TimeRE_def split: if_splits intro!: splits_intros)

lemma rx_digit_unfold:
  "rx_digit s = (case s of [] \<Rightarrow> [] | c # r \<Rightarrow> if isdigit c then [([c], r)] else [])"
  by (cases s) (simp_all add: rx_digit_def rx_in_def isdigit_def)

lemma rx_Y_match:
  assumes "(a, r) \<in> set (rx_cat [rx_digit, rx_digit, rx_digit, rx_digit] s)"
  shows "\<exists>a1 a2 a3 a4. s = a1 # a2 # a3 # a4 # r \<and> isdigit a1 \<and> isdigit a2 \<and> isdigit a3 \<and> isdigit a4"
  using assms
  by (auto simp: rx_cat_def rx_seq_def rx_eps_def rx_digit_unfold split: list.splits if_splits)

lemma year_needs_four_digits:
  assumes "(g, r) \<in> set (rx_format tzname ts s)" "Dir (CHR ''Y'') \<in> set ts"
  shows "four_digits s"
  using assms
proof (induction ts arbitrary: s g r)
  case Nil
  then show ?case by simp
next
  case (Cons t ts)
  show ?case
  proof (cases t)
    case (Lit c)
    with Cons.prems obtain x xs where s: "s = x # xs" and m: "(g, r) \<in> set (rx_format tzname ts xs)"
      by (auto split: list.splits if_splits)
    from Lit Cons.prems(2) have "Dir (CHR ''Y'') \<in> set ts" by simp
    from Cons.IH [OF m this] show ?thesis by (simp add: s four_digits_Cons)
  next
    case Ws
    with Cons.prems obtain a r' where w: "(a, r') \<in> set (rx_ws_plus s)"
      and m: "(g, r) \<in> set (rx_format tzname ts r')"
      by auto
    from Ws Cons.prems(2) have "Dir (CHR ''Y'') \<in> set ts" by simp
    from Cons.IH [OF m this] splitsD [OF splits_ws_plus w] show ?thesis
      by (simp add: four_digits_append)
  next
    case (Dir d)
    show ?thesis
    proof (cases "TimeRE tzname d")
      case None
      with Dir Cons.prems(1) show ?thesis by simp
    next
      case (Some p)
      with Dir Cons.prems(1) obtain a r' g' where w: "(a, r') \<in> set (p s)"
        and m: "(g', r) \<in> set (rx_format tzname ts r')"
        by auto
      have sp: "s = a @ r'" using splitsD [OF splits_TimeRE [OF Some] w] .
      show ?thesis
      proof (cases "d = CHR ''Y''")
        case True
        with Some have "p = rx_cat [rx_digit, rx_digit, rx_digit, rx_digit]"
          by (simp add: TimeRE_def)
        with w rx_Y_match obtain a1 a2 a3 a4 where "s = a1 # a2 # a3 # a4 # r'"
          "isdigit a1" "isdigit a2" "isdigit a3" "isdigit a4"
          by blast
        then show ?thesis by simp
      next
        case False
        with Dir Cons.prems(2) have "Dir (CHR ''Y'') \<in> set ts" by simp
        from Cons.IH [OF m this] show ?thesis by (simp add: sp four_digits_append)
      qed
    qed
  qed
qed

lemma formats_have_year: "sFmt \<in> set lDateFormats \<Longrightarrow> Dir (CHR ''Y'') \<in> set (pattern False sFmt)"
  by (auto simp: lDateFormats_def isspace_def)

lemma no_four_digits_no_date:
  assumes "\<not> four_digits s" "sFmt \<in> set lDateFormats"
  shows "strptime tzname s sFmt = None"
proof (cases "rx_format tzname (pattern False sFmt) s")
  case Nil
  then show ?thesis by (simp add: strptime_def)
next
  case (Cons x xs)
  obtain g r where "x = (g, r)" by (cases x)
  with Cons have "(g, r) \<in> set (rx_format tzname (pattern False sFmt) s)" by simp
  from year_needs_four_digits [OF this formats_have_year [OF assms(2)]] assms(1)
  show ?thesis by simp
qed

lemma py_str_1: "n < 10 \<Longrightarrow> py_str n = [digit_chr n]"
  by (subst py_str.simps) simp

lemma py_str_2: "10 \<le> n \<Longrightarrow> n < 100 \<Longrightarrow> py_str n = [digit_chr (n div 10), digit_chr n]"
  by (subst py_str.simps) (simp add: py_str_1 less_mult_imp_div_less)

lemma py_str_3:
  "100 \<le> n \<Longrightarrow> n < 1000 \<Longrightarrow> py_str n = [digit_chr (n div 100), digit_chr (n div 10), digit_chr n]"
proof -
  assume a: "100 \<le> n" "n < 1000"
  then have "10 \<le> n div 10" "n div 10 < 100" by simp_all
  from py_str_2 [OF this] a show ?thesis
    by (subst py_str.simps) (simp add: div_mult2_eq [symmetric])
qed

lemma py_str_4: "1000 \<le> n \<Longrightarrow> n < 10000 \<Longrightarrow> py_str n = pad4 n"
proof -
  assume a: "1000 \<le> n" "n < 10000"
  then have "100 \<le> n div 10" "n div 10 < 1000" by simp_all
  from py_str_3 [OF this] a show ?thesis
    by (subst py_str.simps) (simp add: div_mult2_eq [symmetric] pad4_def)
qed

lemma isdigit_dash: "\<not> isdigit (CHR ''-'')"
  by (simp add: isdigit_def)

lemma short_year_shape:
  assumes "y < 1000"
  shows "\<not> four_digits (py_str y @ ''-'' @ pad2 m @ ''-'' @ pad2 d)
         \<and> strip (py_str y @ ''-'' @ pad2 m @ ''-'' @ pad2 d) = py_str y @ ''-'' @ pad2 m @ ''-'' @ pad2 d
         \<and> py_str y @ ''-'' @ pad2 m @ ''-'' @ pad2 d \<noteq> []"
proof -
  consider "y < 10" | "10 \<le> y" "y < 100" | "100 \<le> y" "y < 1000"
    using assms by linarith
  then show ?thesis
  proof cases
    case 1
    then show ?thesis by (simp add: py_str_1 pad2_def isdigit_dash strip_def)
  next
    case 2
    then show ?thesis by (simp add: py_str_2 pad2_def isdigit_dash strip_def)
  next
    case 3
    then show ?thesis by (simp add: py_str_3 pad2_def isdigit_dash strip_def)
  qed
qed

lemma try_formats_none:
  "\<forall>sFmt \<in> set fmts. strptime tzname s sFmt = None \<Longrightarrow> try_formats tzname zpad s fmts = s"
  by (induction fmts) simp_all

lemma canonical_fixed:
  assumes "valid_date (dt_year dt) (dt_month dt) (dt_day dt)"
  shows "parseAndFormatDate tzname zpad (strftime_Ymd zpad dt) = strftime_Ymd zpad dt"
proof (cases "zpad \<or> 1000 \<le> dt_year dt")
  case True
  from valid_date_bounds [OF assms] have "dt_year dt < 10000" by simp
  with True have y: "fmt_year zpad (dt_year dt) = pad4 (dt_year dt)"
    by (auto simp: fmt_year_def py_str_4)
  have c: "strftime_Ymd zpad x = pad4 (dt_year x) @ ''-'' @ pad2 (dt_month x) @ ''-'' @ pad2 (dt_day x)"
    if "fmt_year zpad (dt_year x) = pad4 (dt_year x)" for x :: datetime
    using that by (simp add: strftime_Ymd_def)
  from canonical_fmt3 [OF assms, of tzname] obtain dt' where
    p: "strptime tzname (strftime_Ymd zpad dt) ''%Y-%m-%d'' = Some dt'"
    and f: "dt_year dt' = dt_year dt" "dt_month dt' = dt_month dt" "dt_day dt' = dt_day dt"
    unfolding c [OF y] by blast
  have ne: "strftime_Ymd zpad dt \<noteq> []"
    by (simp add: c [OF y] pad4_def)
  have "try_formats tzname zpad (strftime_Ymd zpad dt) lDateFormats = strftime_Ymd zpad dt'"
    using canonical_fmt1 [of tzname "dt_year dt" "dt_month dt" "dt_day dt"]
      canonical_fmt2 [of tzname "dt_year dt" "dt_month dt" "dt_day dt"] p
    by (simp add: lDateFormats_def c [OF y])
  also have "\<dots> = strftime_Ymd zpad dt"
    by (simp add: strftime_Ymd_def f)
  finally show ?thesis
    using ne strip_canonical [of "dt_year dt" "dt_month dt" "dt_day dt"]
    by (simp add: parseAndFormatDate_def c [OF y])
next
  case False
  then have z: "\<not> zpad" and y: "dt_year dt < 1000" by simp_all
  define c where "c = py_str (dt_year dt) @ ''-'' @ pad2 (dt_month dt) @ ''-'' @ pad2 (dt_day dt)"
  have sc: "strftime_Ymd zpad dt = c"
    using z by (simp add: strftime_Ymd_def fmt_year_def c_def)
  from short_year_shape [OF y, of "dt_month dt" "dt_day dt"]
  have nf: "\<not> four_digits c" and st: "strip c = c" and ne: "c \<noteq> []"
    by (simp_all add: c_def)
  have "\<forall>sFmt \<in> set lDateFormats. strptime tzname c sFmt = None"
    using no_four_digits_no_date [OF nf] by blast
  then have "try_formats tzname zpad c lDateFormats = c"
    by (rule try_formats_none)
  then show ?thesis
    using st ne by (simp add: sc parseAndFormatDate_def)
qed

lemma try_formats_result:
  "try_formats tzname zpad s fmts = s \<or>
   (\<exists>dt. valid_date (dt_year dt) (dt_month dt) (dt_day dt) \<and> try_formats tzname zpad s fmts = strftime_Ymd zpad dt)"
proof (induction fmts)
  case Nil
  then show ?case by simp
next
  case (Cons f fmts)
  show ?case
  proof (cases "strptime tzname s f")
    case None
    then show ?thesis using Cons.IH by simp
  next
    case (Some dt)
    then show ?thesis using strptime_valid [OF Some] by auto
  qed
qed


section \<open>Facts about the spider\<close>

lemmas crawl_defs = run_def init_def startRequests_def parse_def updated_date_def meta_step_def
  dict_get_def requests_of_def py_str_int_def env_utc_def cfg_none_def page_def web_three_def
  cfg_two_def web_untitled_def cfg_start_def web_home_def cfg_home_log_def item_home_def
  sp_home_def fs_empty_def fs_home_def fs_readonly_def Let_def strip_def eval_nat_numeral
  One_nat_def

lemmas closed_defs = closed_def csv_root_def unsafe_chars_def strip_def isspace_def
  MEM_LOG_HANDLER_def fmt_02d_def

lemmas name_defs = pick_csv.simps py_str.simps digit_chr_def fmt_02d_def

text \<open>In URL list mode \<^verbatim>\<open>parse\<close> records the page and yields no request.\<close>

lemma parse_list_mode:
  assumes "bUrlListMode sp"
  shows "requests_of (snd (parse e sp r)) = []
         \<and> bUrlListMode (fst (parse e sp r))
         \<and> length (lItems (fst (parse e sp r))) = Suc (length (lItems sp))"
  using assms by (simp add: parse_def Let_def requests_of_def)

text \<open>
  In crawl mode a call of \<^verbatim>\<open>parse\<close> that starts with \<open>lUrlSet\<close> at the cap yields no request
  and leaves the set as it is. The cap is looked at once per page, before the loop over the
  links of the page.
\<close>

lemma parse_at_cap:
  assumes "\<not> bUrlListMode sp" "iMaxUrls sp \<le> int (card (lUrlSet sp))"
  shows "requests_of (snd (parse e sp r)) = [] \<and> lUrlSet (fst (parse e sp r)) = lUrlSet sp"
  using assms by (simp add: parse_def Let_def requests_of_def)

text \<open>
  In URL list mode the engine, given at least one step per request, dispatches the requests of
  its queue and no others, and the spider gains one record per response.
\<close>

lemma engine_list_mode:
  assumes "bUrlListMode sp" "length q \<le> n"
  shows "\<exists>sp' outs. engine n e fetch sp q = Some (sp', outs, q) \<and> bUrlListMode sp'
           \<and> length (lItems sp') = length (lItems sp) + length (filter (\<lambda>rq. fetch rq \<noteq> None) q)"
  using assms
proof (induction n arbitrary: sp q)
  case 0
  then show ?case by simp
next
  case (Suc n)
  show ?case
  proof (cases q)
    case Nil
    then show ?thesis using Suc.prems by simp
  next
    case (Cons rq q')
    then have len: "length q' \<le> n" using Suc.prems by simp
    show ?thesis
    proof (cases "fetch rq")
      case None
      from Suc.IH [OF Suc.prems(1) len] obtain sp' outs where
        "engine n e fetch sp q' = Some (sp', outs, q')" "bUrlListMode sp'"
        "length (lItems sp') = length (lItems sp) + length (filter (\<lambda>rq. fetch rq \<noteq> None) q')"
        by blast
      then show ?thesis using Cons None by simp
    next
      case (Some r)
      obtain sp1 outs1 where p: "parse e sp r = (sp1, outs1)" by (cases "parse e sp r")
      from parse_list_mode [OF Suc.prems(1), of e r] p
      have no: "requests_of outs1 = []" and lm: "bUrlListMode sp1"
        and li: "length (lItems sp1) = Suc (length (lItems sp))"
        by simp_all
      from Suc.IH [OF lm len] obtain sp' outs where
        "engine n e fetch sp1 q' = Some (sp', outs, q')" "bUrlListMode sp'"
        "length (lItems sp') = length (lItems sp1) + length (filter (\<lambda>rq. fetch rq \<noteq> None) q')"
        by blast
      then show ?thesis using Cons Some p no li by simp
    qed
  qed
qed

lemma engine_list_mode_done:
  assumes "bUrlListMode sp" "engine n e fetch sp q = Some (sp', outs, done)"
  shows "done = q"
  using assms
proof (induction n arbitrary: sp q sp' outs "done")
  case 0
  then show ?case by (simp split: if_splits)
next
  case (Suc n)
  show ?case
  proof (cases q)
    case Nil
    then show ?thesis using Suc.prems by simp
  next
    case (Cons rq q')
    show ?thesis
    proof (cases "fetch rq")
      case None
      with Cons Suc.prems(2) obtain d where
        "engine n e fetch sp q' = Some (sp', outs, d)" "done = rq # d"
        by (auto split: option.splits)
      with Suc.IH [OF Suc.prems(1)] Cons show ?thesis by simp
    next
      case (Some r)
      obtain sp1 outs1 where p: "parse e sp r = (sp1, outs1)" by (cases "parse e sp r")
      from parse_list_mode [OF Suc.prems(1), of e r] p
      have no: "requests_of outs1 = []" and lm: "bUrlListMode sp1"
        by simp_all
      from Cons Some p no Suc.prems(2) obtain o2 d where
        "engine n e fetch sp1 q' = Some (sp', o2, d)" "done = rq # d"
        by (auto split: option.splits)
      with Suc.IH [OF lm] Cons show ?thesis by simp
    qed
  qed
qed

text \<open>
  The same for every schedule: in URL list mode a step keeps the mode, adds no request to
  those that wait, and keeps the sum of the records and the waiting requests that will bring
  a response. The function \<open>engine\<close> is one of the schedules.
\<close>

lemma engine_step_list_mode:
  assumes "engine_step e fetch (sp, q) (sp', q')" "bUrlListMode sp"
  shows "bUrlListMode sp' \<and> set q' \<subseteq> set q
         \<and> length (lItems sp') + length (filter (\<lambda>rq. fetch rq \<noteq> None) q')
             = length (lItems sp) + length (filter (\<lambda>rq. fetch rq \<noteq> None) q)"
  using assms
proof (cases rule: engine_step.cases)
  case (no_response rq xs ys)
  then show ?thesis using assms(2) by auto
next
  case (callback rq r outs xs ys)
  from parse_list_mode [OF assms(2), of e r] callback(4)
  have "requests_of outs = []" "bUrlListMode sp'" "length (lItems sp') = Suc (length (lItems sp))"
    by simp_all
  then show ?thesis using callback by auto
qed

lemma engine_run_list_mode:
  assumes "engine_run e fetch (sp, q) (sp', q')" "bUrlListMode sp"
  shows "bUrlListMode sp' \<and> set q' \<subseteq> set q
         \<and> length (lItems sp') + length (filter (\<lambda>rq. fetch rq \<noteq> None) q')
             = length (lItems sp) + length (filter (\<lambda>rq. fetch rq \<noteq> None) q)"
proof -
  have "bUrlListMode (fst b) \<and> set (snd b) \<subseteq> set (snd a)
         \<and> length (lItems (fst b)) + length (filter (\<lambda>rq. fetch rq \<noteq> None) (snd b))
             = length (lItems (fst a)) + length (filter (\<lambda>rq. fetch rq \<noteq> None) (snd a))"
    if "(engine_step e fetch)\<^sup>*\<^sup>* a b" "bUrlListMode (fst a)" for a b
    using that
  proof (induction rule: rtranclp_induct)
    case base
    then show ?case by simp
  next
    case (step y z)
    from step.IH [OF step.prems] have lm: "bUrlListMode (fst y)" by simp
    from engine_step_list_mode [of e fetch "fst y" "snd y" "fst z" "snd z"] step.hyps(2) lm
    have "bUrlListMode (fst z) \<and> set (snd z) \<subseteq> set (snd y)
         \<and> length (lItems (fst z)) + length (filter (\<lambda>rq. fetch rq \<noteq> None) (snd z))
             = length (lItems (fst y)) + length (filter (\<lambda>rq. fetch rq \<noteq> None) (snd y))"
      by simp
    with step.IH [OF step.prems] show ?case by auto
  qed
  from this [of "(sp, q)" "(sp', q')"] assms show ?thesis
    by (simp add: engine_run_def)
qed

lemma engine_is_run:
  assumes "engine n e fetch sp q = Some (sp', outs, done)"
  shows "engine_run e fetch (sp, q) (sp', [])"
  using assms
proof (induction n arbitrary: sp q sp' outs "done")
  case 0
  then show ?case by (simp add: engine_run_def split: if_splits)
next
  case (Suc n)
  show ?case
  proof (cases q)
    case Nil
    then show ?thesis using Suc.prems by (simp add: engine_run_def)
  next
    case (Cons rq q')
    show ?thesis
    proof (cases "fetch rq")
      case None
      with Cons Suc.prems obtain d where "engine n e fetch sp q' = Some (sp', outs, d)"
        by (auto split: option.splits)
      from Suc.IH [OF this] have "engine_run e fetch (sp, q') (sp', [])" .
      moreover have "engine_step e fetch (sp, [] @ rq # q') (sp, [] @ q')"
        using None by (rule engine_step.no_response)
      ultimately show ?thesis using Cons by (simp add: engine_run_def)
    next
      case (Some r)
      obtain sp1 outs1 where p: "parse e sp r = (sp1, outs1)" by (cases "parse e sp r")
      with Cons Some Suc.prems obtain o2 d where
        "engine n e fetch sp1 (q' @ requests_of outs1) = Some (sp', o2, d)"
        by (auto split: option.splits)
      from Suc.IH [OF this] have "engine_run e fetch (sp1, q' @ requests_of outs1) (sp', [])" .
      moreover have "engine_step e fetch (sp, [] @ rq # q') (sp1, [] @ q' @ requests_of outs1)"
        using Some p by (rule engine_step.callback)
      ultimately show ?thesis using Cons by (simp add: engine_run_def)
    qed
  qed
qed

text \<open>The loop of \<^verbatim>\<open>startRequests\<close> over distinct URLs that are all new yields each of them.\<close>

lemma start_list_fresh:
  assumes "distinct us" "set us \<inter> S = {}"
  shows "start_list S us = (S \<union> set us, map (\<lambda>u. \<lparr>req_url = u, req_dont_filter = True\<rparr>) us)"
  using assms
proof (induction us arbitrary: S)
  case Nil
  then show ?case by simp
next
  case (Cons u us)
  then have "set us \<inter> insert u S = {}" by auto
  with Cons have "start_list (insert u S) us =
      (insert u S \<union> set us, map (\<lambda>u. \<lparr>req_url = u, req_dont_filter = True\<rparr>) us)"
    by simp
  then show ?case using Cons.prems by simp
qed

lemma list_mode_init:
  assumes "strip (dict_get [] (cfg_urlList cfg)) \<noteq> []"
  shows "init e cfg =
     Some \<lparr>dConfigData = cfg, iMaxUrls = dict_get 30 (cfg_maxUrls cfg),
           iCrawlDepth = dict_get 3 (cfg_crawlDepth cfg), sParentDir = dict_get [] (cfg_parentDir cfg),
           lItems = [], sStartTitle = [], lUrlSet = {}, bUrlListMode = True,
           lUrlList = Some (remdups (map strip (filter (\<lambda>sUrl. strip sUrl \<noteq> [])
                                                  (splitlines (dict_get [] (cfg_urlList cfg)))))),
           sStartUrl = None, allowed_domains = None, bPrintedCrawlingMessage = False\<rparr>"
  using assms by (simp add: init_def)

lemma cfg_both_urls:
  "remdups (map strip (filter (\<lambda>sUrl. strip sUrl \<noteq> []) (splitlines (dict_get [] (cfg_urlList cfg_both)))))
     = [''http://example.com'', ''http://example.com/x'']"
  by (simp add: cfg_both_def cfg_none_def dict_get_def splitlines_def is_linebreak_def strip_def isspace_def)

text \<open>The example crawl of the page Home ends in the spider object \<open>sp_home\<close>.\<close>

lemma sp_home_reached:
  "init env_utc cfg_home_log = Some sp0 \<Longrightarrow> startRequests sp0 = (sp1, reqs) \<Longrightarrow>
   map_option fst (engine (Suc 0) env_utc web_home sp1 reqs) = Some sp_home"
  by (auto simp add: init_def startRequests_def parse_def updated_date_def meta_step_def dict_get_def
      requests_of_def env_utc_def cfg_none_def page_def web_home_def cfg_home_log_def item_home_def
      sp_home_def Let_def strip_def)

lemma sp_home_name:
  "pick_csv (fs_exists fs_readonly) (csv_root sp_home) (csv_root sp_home @ ''.csv'') 1 = Some ''Home.csv''"
  apply (simp add: csv_root_def unsafe_chars_def sp_home_def fs_readonly_def strip_def isspace_def)
  apply (simp add: pick_csv.simps)
  done

text \<open>
  The parts of the file naming that hold for every spider: a blank stored title gives the
  default name, and no unsafe character is left in the base name. With \<^verbatim>\<open>Home.csv\<close> in place,
  the example crawl of the page Home writes \<^verbatim>\<open>Home-01.csv\<close>.
\<close>

lemma csv_root_blank: "strip (sStartTitle sp) = [] \<Longrightarrow> csv_root sp = ''output''"
  by (simp add: csv_root_def unsafe_chars_def)

lemma csv_root_safe: "c \<in> set (csv_root sp) \<Longrightarrow> c \<notin> set unsafe_chars"
  by (simp add: csv_root_def Let_def)

lemma home_collision:
  "run 1 env_utc web_home fs_home cfg_home_log =
       Some [Print ''Crawling http://example.com'', Print ''Home'', Yield_item item_home,
             Write_csv ''Home-01.csv'' [item_home], Print ''Saved 1 links to Home-01.csv'']"
  apply (simp add: crawl_defs)
  apply (simp add: closed_defs)
  apply (simp add: name_defs)
  done

text \<open>
  One meta step that starts from the empty string is the candidate of that tag.
\<close>

lemma meta_step_empty: "meta_step e got [] = meta_candidate e got"
  by (cases got) (simp_all add: meta_step_def meta_candidate_def dict_get_def parseAndFormatDate_def strip_def)

lemma na_no_format:
  "map (strptime [''utc''] ''n/a'') lDateFormats = replicate 11 None"
  by (simp add: TimeRE_def str_defs rx_defs time_defs eval_nat_numeral)


section \<open>The claims\<close>

subsection \<open>The cap on the number of URLs\<close>

text \<open>
  Claim C1 says that in crawl mode no URL is enqueued once the visited set has reached
  \<open>maxUrls\<close>, so that a run produces at most \<open>maxUrls\<close> page records. The code does not keep
  to it. With \<open>maxUrls = 2\<close> and a start page that links to three new pages, \<^verbatim>\<open>parse\<close> finds one
  URL in the set, enters the loop and requests all three links: the second and third are
  enqueued after the set has reached two, and the run writes four records.
\<close>

theorem crawl_exceeds_maxUrls:
  "run 4 env_utc web_three fs_empty cfg_two =
     Some [Print ''Crawling http://example.com'', Print ''Example'',
           Yield_item \<lparr>it_url = ''http://example.com'', it_title = ''Example'', it_linkCount = 3,
                        it_controlCount = 0, it_byteCount = 0, it_updated = []\<rparr>,
           Yield_request \<lparr>req_url = ''http://example.com/a'', req_dont_filter = False\<rparr>,
           Yield_request \<lparr>req_url = ''http://example.com/b'', req_dont_filter = False\<rparr>,
           Yield_request \<lparr>req_url = ''http://example.com/c'', req_dont_filter = False\<rparr>,
           Print ''Leaf'',
           Yield_item \<lparr>it_url = ''http://example.com/a'', it_title = ''Leaf'', it_linkCount = 0,
                        it_controlCount = 0, it_byteCount = 0, it_updated = []\<rparr>,
           LogError ''Reached maximum URL count: 2'',
           Print ''Leaf'',
           Yield_item \<lparr>it_url = ''http://example.com/b'', it_title = ''Leaf'', it_linkCount = 0,
                        it_controlCount = 0, it_byteCount = 0, it_updated = []\<rparr>,
           LogError ''Reached maximum URL count: 2'',
           Print ''Leaf'',
           Yield_item \<lparr>it_url = ''http://example.com/c'', it_title = ''Leaf'', it_linkCount = 0,
                        it_controlCount = 0, it_byteCount = 0, it_updated = []\<rparr>,
           LogError ''Reached maximum URL count: 2'',
           Write_csv ''Example.csv''
             [\<lparr>it_url = ''http://example.com'', it_title = ''Example'', it_linkCount = 3,
                it_controlCount = 0, it_byteCount = 0, it_updated = []\<rparr>,
              \<lparr>it_url = ''http://example.com/a'', it_title = ''Leaf'', it_linkCount = 0,
                it_controlCount = 0, it_byteCount = 0, it_updated = []\<rparr>,
              \<lparr>it_url = ''http://example.com/b'', it_title = ''Leaf'', it_linkCount = 0,
                it_controlCount = 0, it_byteCount = 0, it_updated = []\<rparr>,
              \<lparr>it_url = ''http://example.com/c'', it_title = ''Leaf'', it_linkCount = 0,
                it_controlCount = 0, it_byteCount = 0, it_updated = []\<rparr>],
           Print ''Saved 4 links to Example.csv'']"
  apply (simp add: crawl_defs)
  apply (simp add: closed_defs)
  apply (simp add: name_defs)
  done


subsection \<open>The shutdown sequence\<close>

text \<open>
  Claim C2, as the code has it: when writing the CSV file fails, \<^verbatim>\<open>closed\<close> reports the
  failure and returns. Whatever the log handler holds, nothing else happens: no log file is
  written and no summary line is printed.
\<close>

theorem csv_failure_ends_shutdown:
  assumes "pick_csv (fs_exists f) (csv_root sp) (csv_root sp @ ''.csv'') 1 = Some sCsvFile"
    and "\<not> fs_write_ok f sCsvFile"
  shows "closed f handler sp = Some [LogError ''Failed to write CSV file'']"
  using assms by (simp add: closed_def Let_def)

text \<open>
  The theorem of claim C2 at the spider object of the example crawl, in a directory where no
  file can be written, with a handler that holds one line.
\<close>

theorem csv_failure_ends_shutdown_witness:
  "pick_csv (fs_exists fs_readonly) (csv_root sp_home) (csv_root sp_home @ ''.csv'') 1 = Some ''Home.csv''
   \<and> \<not> fs_write_ok fs_readonly ''Home.csv''
   \<and> closed fs_readonly (Some [''Spider opened'']) sp_home = Some [LogError ''Failed to write CSV file'']"
proof -
  have w: "\<not> fs_write_ok fs_readonly ''Home.csv''"
    by (simp add: fs_readonly_def)
  from csv_failure_ends_shutdown [OF sp_home_name w, of "Some [''Spider opened'']"] sp_home_name w
  show ?thesis by simp
qed

text \<open>
  Claim C2 as the specification states it fails: logging is enabled, the CSV file cannot be
  written, and the shutdown puts out the error message only, with a handler that holds a
  line as well as with the handler the program has. The whole run ends with the error
  message: there is no \<open>Write_log\<close> and no \<^verbatim>\<open>Saved ... links to ...\<close> line.
\<close>

theorem csv_failure_is_fatal:
  "dict_get False (cfg_log (dConfigData sp_home)) = True
   \<and> closed fs_readonly (Some [''Spider opened'']) sp_home = Some [LogError ''Failed to write CSV file'']
   \<and> closed fs_readonly MEM_LOG_HANDLER sp_home = Some [LogError ''Failed to write CSV file'']
   \<and> run 1 env_utc web_home fs_readonly cfg_home_log =
       Some [Print ''Crawling http://example.com'', Print ''Home'', Yield_item item_home,
             LogError ''Failed to write CSV file'']"
proof -
  have 1: "dict_get False (cfg_log (dConfigData sp_home)) = True"
    by (simp add: sp_home_def cfg_home_log_def cfg_none_def dict_get_def)
  have 2: "closed fs_readonly handler sp_home = Some [LogError ''Failed to write CSV file'']" for handler
    using sp_home_name by (simp add: closed_def Let_def fs_readonly_def)
  have 3: "run 1 env_utc web_home fs_readonly cfg_home_log =
       Some [Print ''Crawling http://example.com'', Print ''Home'', Yield_item item_home,
             LogError ''Failed to write CSV file'']"
    apply (simp add: crawl_defs)
    apply (simp add: closed_defs)
    apply (simp add: name_defs)
    done
  from 1 2 3 show ?thesis by simp
qed

text \<open>
  Claim C3 says that a run with logging enabled writes the accumulated log lines to the
  \<^verbatim>\<open>.log\<close> file beside the report. The code does not: \<^verbatim>\<open>closed\<close> writes the log only when
  \<^verbatim>\<open>MEM_LOG_HANDLER\<close> is not \<^verbatim>\<open>None\<close>, and the program never assigns it. A run with \<^verbatim>\<open>log\<close> set, in
  a directory where every write succeeds, writes the CSV file and prints the summary, and
  writes no log file.
\<close>

theorem log_file_never_written:
  "cfg_log cfg_home_log = Some True
   \<and> run 1 env_utc web_home fs_empty cfg_home_log =
       Some [Print ''Crawling http://example.com'', Print ''Home'', Yield_item item_home,
             Write_csv ''Home.csv'' [item_home], Print ''Saved 1 links to Home.csv'']"
  apply (simp add: crawl_defs)
  apply (simp add: closed_defs)
  apply (simp add: name_defs)
  done

text \<open>
  Claim C4 says that the base name of the output file comes from the title of the first
  processed page, with a default name when that title is blank. The code keeps the first
  title that is not empty: \<^verbatim>\<open>parse\<close> assigns \<open>sStartTitle\<close> while it is empty. When the first
  page has no title and the second is titled Foo, the file is \<^verbatim>\<open>Foo.csv\<close>, not
  \<^verbatim>\<open>output.csv\<close>.
\<close>

theorem csv_named_after_later_title:
  "run 2 env_utc web_untitled fs_empty cfg_start =
     Some [Print ''Crawling http://example.com'', Print [],
           Yield_item \<lparr>it_url = ''http://example.com'', it_title = [], it_linkCount = 1,
                        it_controlCount = 0, it_byteCount = 0, it_updated = []\<rparr>,
           Yield_request \<lparr>req_url = ''http://example.com/foo'', req_dont_filter = False\<rparr>,
           Print ''Foo'',
           Yield_item \<lparr>it_url = ''http://example.com/foo'', it_title = ''Foo'', it_linkCount = 0,
                        it_controlCount = 0, it_byteCount = 0, it_updated = []\<rparr>,
           Write_csv ''Foo.csv''
             [\<lparr>it_url = ''http://example.com'', it_title = [], it_linkCount = 1,
                it_controlCount = 0, it_byteCount = 0, it_updated = []\<rparr>,
              \<lparr>it_url = ''http://example.com/foo'', it_title = ''Foo'', it_linkCount = 0,
                it_controlCount = 0, it_byteCount = 0, it_updated = []\<rparr>],
           Print ''Saved 2 links to Foo.csv'']"
  apply (simp add: crawl_defs)
  apply (simp add: closed_defs)
  apply (simp add: name_defs)
  done


subsection \<open>The \<open>updated\<close> field\<close>

text \<open>
  The order of the candidates is the one the specification gives: the \<open>updated\<close> field of
  \<^verbatim>\<open>parse\<close> is the first candidate that is not empty, in the order header, \<^verbatim>\<open>last-modified\<close>,
  \<^verbatim>\<open>article:modified_time\<close>, \<^verbatim>\<open>last_modified\<close>, \<^verbatim>\<open>modified\<close>, and a header that does not parse
  is an absent candidate. What the code makes of a meta string that no format matches is that
  string with the whitespace around it removed.
\<close>

theorem updated_resolution:
  "updated_date e r = updated_spec e r
   \<and> ((\<forall>sFmt \<in> set lDateFormats. strptime (env_tzname e) (strip v) sFmt = None)
        \<longrightarrow> meta_candidate e (Some v) = strip v)"
proof
  show "updated_date e r = updated_spec e r"
    by (simp add: updated_date_def updated_spec_def first_success_def Let_def meta_step_empty
        header_candidate_def)
next
  show "(\<forall>sFmt \<in> set lDateFormats. strptime (env_tzname e) (strip v) sFmt = None)
        \<longrightarrow> meta_candidate e (Some v) = strip v"
  proof
    assume "\<forall>sFmt \<in> set lDateFormats. strptime (env_tzname e) (strip v) sFmt = None"
    then have "try_formats (env_tzname e) (env_zero_pad e) (strip v) lDateFormats = strip v"
      by (rule try_formats_none)
    then show "meta_candidate e (Some v) = strip v"
      by (simp add: meta_candidate_def parseAndFormatDate_def Let_def)
  qed
qed

text \<open>
  The same fact at a page whose \<^verbatim>\<open>last-modified\<close> meta tag holds \<^verbatim>\<open>n/a\<close> between two blanks:
  none of the eleven formats parses \<^verbatim>\<open>n/a\<close>.
\<close>

theorem updated_resolution_witness:
  "map (strptime (env_tzname env_utc) (strip '' n/a '')) lDateFormats = replicate 11 None
   \<and> meta_candidate env_utc (Some '' n/a '') = ''n/a''
   \<and> updated_date env_utc page_padded_meta = updated_spec env_utc page_padded_meta"
proof -
  have s: "strip '' n/a '' = ''n/a''"
    by (simp add: strip_def isspace_def)
  have t: "env_tzname env_utc = [''utc'']"
    by (simp add: env_utc_def)
  have "\<forall>sFmt \<in> set lDateFormats. strptime (env_tzname env_utc) (strip '' n/a '') sFmt = None"
  proof
    fix sFmt assume "sFmt \<in> set lDateFormats"
    then have "strptime [''utc''] ''n/a'' sFmt \<in> set (map (strptime [''utc''] ''n/a'') lDateFormats)"
      by simp
    then show "strptime (env_tzname env_utc) (strip '' n/a '') sFmt = None"
      unfolding na_no_format s t by simp
  qed
  with updated_resolution [of env_utc page_padded_meta "'' n/a ''"] na_no_format
  show ?thesis by (simp add: s t)
qed

text \<open>
  Claim C5 says that a meta string which the Date Normalizer matches against no known format
  is used verbatim as \<open>updated\<close>, and the documentation of \<^verbatim>\<open>parseAndFormatDate\<close> says that it
  returns the original string then. The code does not: \<^verbatim>\<open>parseAndFormatDate\<close> rebinds its
  argument to the stripped string before it tries the formats and returns that one. On a page
  with no \<^verbatim>\<open>Last-Modified\<close> header whose \<^verbatim>\<open>last-modified\<close> meta tag holds \<^verbatim>\<open>n/a\<close> between two
  blanks, \<open>updated\<close> is \<^verbatim>\<open>n/a\<close> without the blanks.
\<close>

theorem updated_not_verbatim:
  "resp_meta_last_modified page_padded_meta = Some '' n/a ''
   \<and> updated_date env_utc page_padded_meta = ''n/a''
   \<and> updated_date env_utc page_padded_meta \<noteq> '' n/a ''"
proof -
  have "parseAndFormatDate [''utc''] False '' n/a '' = ''n/a''"
    by (simp add: TimeRE_def str_defs rx_defs time_defs fmt_year_def py_str.simps)
  then show ?thesis
    by (simp add: updated_date_def meta_step_def dict_get_def page_padded_meta_def page_def env_utc_def)
qed


subsection \<open>The Date Normalizer\<close>

text \<open>
  Claim C6. The Date Normalizer maps \<^verbatim>\<open>March 18, 2025\<close> and
  \<^verbatim>\<open>Tue, 18 Mar 2025 00:00:00 GMT\<close> to \<^verbatim>\<open>2025-03-18\<close>, returns \<^verbatim>\<open>not a date\<close> unchanged, and
  returns the empty string for the empty string, whatever the local time zone names are and
  whichever way the C library prints a year.
\<close>

theorem normalizer_examples:
  "parseAndFormatDate tzname zpad ''March 18, 2025'' = ''2025-03-18''
   \<and> parseAndFormatDate tzname zpad ''Tue, 18 Mar 2025 00:00:00 GMT'' = ''2025-03-18''
   \<and> parseAndFormatDate tzname zpad ''not a date'' = ''not a date''
   \<and> parseAndFormatDate tzname zpad [] = []"
proof -
  have long_month: "parseAndFormatDate tzname zpad ''March 18, 2025'' = ''2025-03-18''"
    by (simp add: TimeRE_def str_defs rx_defs time_defs fmt_year_def py_str.simps)
  have http_date: "parseAndFormatDate tzname zpad ''Tue, 18 Mar 2025 00:00:00 GMT'' = ''2025-03-18''"
  proof -
    define zrx where "zrx = seqToRE (timezone tzname)"
    have "\<exists>rs. seqToRE (timezone tzname) ''GMT'' = (''GMT'', []) # rs"
      by (rule seqToRE_whole [where n = "''gmt''"]) (simp_all add: timezone_def lower_def lower_chr_def)
    then obtain rs where z: "zrx ''GMT'' = (''GMT'', []) # rs"
      by (auto simp: zrx_def)
    have T: "TimeRE tzname = (\<lambda>d. if d = CHR ''Z'' then Some zrx else TimeRE [] d)"
      by (rule ext) (simp add: TimeRE_def zrx_def)
    show ?thesis
      by (simp add: T z TimeRE_def [of "[]"] str_defs rx_defs time_defs fmt_year_def py_str.simps)
  qed
  have no_date: "parseAndFormatDate tzname zpad ''not a date'' = ''not a date''"
    by (simp add: TimeRE_def str_defs rx_defs time_defs fmt_year_def py_str.simps)
  have empty: "parseAndFormatDate tzname zpad [] = []"
    by (simp add: parseAndFormatDate_def strip_def)
  from long_month http_date no_date empty show ?thesis by blast
qed

text \<open>
  Claim C7. \<^verbatim>\<open>03/04/2025\<close> parses under the month-first format, which stands first in the
  list, and under the day-first format, which stands fourth; the Date Normalizer returns the
  month-first reading, March 4, and not April 3, whatever the local time zone names are and
  whichever way the C library prints a year. Neither format has a directive that reads a
  name, so the names of the locale take no part.
\<close>

theorem normalizer_month_first:
  "parseAndFormatDate tzname zpad ''03/04/2025'' = ''2025-03-04''
   \<and> parseAndFormatDate tzname zpad ''03/04/2025'' \<noteq> ''2025-04-03''
   \<and> map_option (strftime_Ymd zpad) (strptime tzname ''03/04/2025'' (lDateFormats ! 0)) = Some ''2025-03-04''
   \<and> map_option (strftime_Ymd zpad) (strptime tzname ''03/04/2025'' (lDateFormats ! 3)) = Some ''2025-04-03''
   \<and> lDateFormats ! 0 = ''%m/%d/%Y'' \<and> lDateFormats ! 3 = ''%d/%m/%Y''"
proof -
  have r: "parseAndFormatDate tzname zpad ''03/04/2025'' = ''2025-03-04''"
    by (simp add: TimeRE_def str_defs rx_defs time_defs fmt_year_def py_str.simps)
  have m: "map_option (strftime_Ymd zpad) (strptime tzname ''03/04/2025'' ''%m/%d/%Y'') = Some ''2025-03-04''"
    by (simp add: TimeRE_def str_defs rx_defs time_defs fmt_year_def py_str.simps)
  have d: "map_option (strftime_Ymd zpad) (strptime tzname ''03/04/2025'' ''%d/%m/%Y'') = Some ''2025-04-03''"
    by (simp add: TimeRE_def str_defs rx_defs time_defs fmt_year_def py_str.simps)
  have i: "lDateFormats ! 0 = ''%m/%d/%Y''" "lDateFormats ! 3 = ''%d/%m/%Y''"
    by (simp_all add: lDateFormats_def)
  show ?thesis
    unfolding i using r m d by simp
qed

text \<open>
  Claim C9. The Date Normalizer is idempotent: normalizing its result gives the same
  result, for every input string, whatever the local time zone names are and whichever way
  the C library prints a year. A result that was not parsed is the stripped input, on which
  the same formats fail again. A parsed result is a valid date printed as year, month and
  day: with a year of four digits the first two formats fail on it and the third reads the
  same date; with a shorter year it holds no four digits in a row and every format fails.
\<close>

theorem normalize_idempotent:
  "parseAndFormatDate tzname zpad (parseAndFormatDate tzname zpad s) = parseAndFormatDate tzname zpad s"
proof (cases "strip s = []")
  case True
  then show ?thesis by (simp add: parseAndFormatDate_def strip_def)
next
  case False
  then have r: "parseAndFormatDate tzname zpad s = try_formats tzname zpad (strip s) lDateFormats"
    by (simp add: parseAndFormatDate_def)
  from try_formats_result [of tzname zpad "strip s" lDateFormats]
  show ?thesis
  proof
    assume same: "try_formats tzname zpad (strip s) lDateFormats = strip s"
    then have "parseAndFormatDate tzname zpad (strip s) = strip s"
      using False by (simp add: parseAndFormatDate_def strip_strip)
    then show ?thesis by (simp add: r same)
  next
    assume "\<exists>dt. valid_date (dt_year dt) (dt_month dt) (dt_day dt) \<and>
                try_formats tzname zpad (strip s) lDateFormats = strftime_Ymd zpad dt"
    then obtain dt where "valid_date (dt_year dt) (dt_month dt) (dt_day dt)"
      and "try_formats tzname zpad (strip s) lDateFormats = strftime_Ymd zpad dt"
      by blast
    then show ?thesis using canonical_fixed by (simp add: r)
  qed
qed


subsection \<open>URL list mode\<close>

text \<open>
  Claim C8. In URL list mode the spider keeps one copy of each non-blank, stripped line of
  the URL list, and \<^verbatim>\<open>startRequests\<close> yields one request for each. A complete crawl exists: the
  engine that takes the oldest request first, given one step per URL, dispatches these
  requests and no others. Whatever the order in which the engine takes the requests, no
  request ever waits that is not one of these, since \<^verbatim>\<open>parse\<close> yields none, and when the
  crawl is complete the number of page records is the number of URLs minus the number of
  requests that bring no response.
\<close>

theorem list_mode_records:
  assumes nonblank: "strip (dict_get [] (cfg_urlList cfg)) \<noteq> []"
    and urls: "urls = remdups (map strip (filter (\<lambda>sUrl. strip sUrl \<noteq> [])
                                            (splitlines (dict_get [] (cfg_urlList cfg)))))"
    and seeds: "seeds = map (\<lambda>u. \<lparr>req_url = u, req_dont_filter = True\<rparr>) urls"
    and fuel: "length urls \<le> n"
  shows "\<exists>sp0 sp1.
           init e cfg = Some sp0 \<and> lUrlList sp0 = Some urls \<and> distinct urls
           \<and> startRequests sp0 = (sp1, seeds)
           \<and> (\<exists>sp2 outs. engine n e fetch sp1 seeds = Some (sp2, outs, seeds)
                 \<and> length (lItems sp2) = length urls - length (filter (\<lambda>rq. fetch rq = None) seeds))
           \<and> (\<forall>sp2 q. engine_run e fetch (sp1, seeds) (sp2, q) \<longrightarrow> set q \<subseteq> set seeds)
           \<and> (\<forall>sp2. engine_run e fetch (sp1, seeds) (sp2, []) \<longrightarrow>
                 length (lItems sp2) = length urls - length (filter (\<lambda>rq. fetch rq = None) seeds))"
proof -
  define sp0 where "sp0 =
     \<lparr>dConfigData = cfg, iMaxUrls = dict_get 30 (cfg_maxUrls cfg),
      iCrawlDepth = dict_get 3 (cfg_crawlDepth cfg), sParentDir = dict_get [] (cfg_parentDir cfg),
      lItems = [], sStartTitle = [], lUrlSet = {}, bUrlListMode = True,
      lUrlList = Some urls, sStartUrl = None, allowed_domains = None,
      bPrintedCrawlingMessage = False\<rparr>"
  have i: "init e cfg = Some sp0"
    using list_mode_init [OF nonblank] by (simp add: sp0_def urls)
  have d: "distinct urls" by (simp add: urls)
  define sp1 where "sp1 = sp0\<lparr>lUrlSet := set urls\<rparr>"
  have "start_list {} urls = ({} \<union> set urls, seeds)"
    unfolding seeds by (rule start_list_fresh) (simp_all add: d)
  then have s: "startRequests sp0 = (sp1, seeds)"
    by (simp add: startRequests_def sp0_def sp1_def dict_get_def)
  have lm: "bUrlListMode sp1" by (simp add: sp1_def sp0_def)
  have none: "lItems sp1 = []" by (simp add: sp1_def sp0_def)
  have split_count: "length (filter (\<lambda>rq. fetch rq \<noteq> None) seeds)
        = length urls - length (filter (\<lambda>rq. fetch rq = None) seeds)"
    using sum_length_filter_compl [of "\<lambda>rq. fetch rq \<noteq> None" seeds] by (simp add: seeds)
  have "length seeds \<le> n" using fuel by (simp add: seeds)
  from engine_list_mode [OF lm this, of e fetch] obtain sp2 outs where
    en: "engine n e fetch sp1 seeds = Some (sp2, outs, seeds)"
    and cnt: "length (lItems sp2) = length (lItems sp1) + length (filter (\<lambda>rq. fetch rq \<noteq> None) seeds)"
    by blast
  have one: "\<exists>sp2 outs. engine n e fetch sp1 seeds = Some (sp2, outs, seeds)
                 \<and> length (lItems sp2) = length urls - length (filter (\<lambda>rq. fetch rq = None) seeds)"
    using en cnt none split_count by auto
  have pending: "set q \<subseteq> set seeds" if "engine_run e fetch (sp1, seeds) (sp2, q)" for sp2 q
    using engine_run_list_mode [OF that lm] by simp
  have every: "length (lItems sp2) = length urls - length (filter (\<lambda>rq. fetch rq = None) seeds)"
    if "engine_run e fetch (sp1, seeds) (sp2, [])" for sp2
    using engine_run_list_mode [OF that lm] none split_count by simp
  from i d s one pending every show ?thesis
    by (auto simp: sp0_def)
qed

text \<open>
  The theorem of claim C8 at a list of four lines with two distinct URLs, of which one
  brings no response: one page record.
\<close>

theorem list_mode_records_witness:
  "strip (dict_get [] (cfg_urlList cfg_both)) \<noteq> []
   \<and> (\<exists>sp0 sp1 sp2 outs.
         init env_utc cfg_both = Some sp0
         \<and> lUrlList sp0 = Some [''http://example.com'', ''http://example.com/x'']
         \<and> startRequests sp0 = (sp1, [\<lparr>req_url = ''http://example.com'', req_dont_filter = True\<rparr>,
                                       \<lparr>req_url = ''http://example.com/x'', req_dont_filter = True\<rparr>])
         \<and> engine 2 env_utc web_home sp1 [\<lparr>req_url = ''http://example.com'', req_dont_filter = True\<rparr>,
                                           \<lparr>req_url = ''http://example.com/x'', req_dont_filter = True\<rparr>]
             = Some (sp2, outs, [\<lparr>req_url = ''http://example.com'', req_dont_filter = True\<rparr>,
                                 \<lparr>req_url = ''http://example.com/x'', req_dont_filter = True\<rparr>])
         \<and> length (lItems sp2) = 1)"
proof -
  have nb: "strip (dict_get [] (cfg_urlList cfg_both)) \<noteq> []"
    by (simp add: cfg_both_def cfg_none_def dict_get_def strip_def isspace_def)
  have fails: "length (filter (\<lambda>rq. web_home rq = None)
                 [\<lparr>req_url = ''http://example.com'', req_dont_filter = True\<rparr>,
                  \<lparr>req_url = ''http://example.com/x'', req_dont_filter = True\<rparr>]) = 1"
    by (simp add: web_home_def)
  from list_mode_records [OF nb cfg_both_urls [symmetric] refl, of 2 env_utc web_home]
  show ?thesis using nb fails by auto
qed


subsection \<open>The choice of the mode\<close>

text \<open>
  Claim C10. The constructor selects URL list mode exactly when the URL list of the
  configuration is non-blank after stripping (otherwise crawl mode, which needs a start URL).
  In URL list mode, whatever the configuration holds under \<^verbatim>\<open>startUrl\<close>, the spider has no
  start URL and no allowed domain, the start requests are those of the lines of the list, and
  in every schedule of the engine no other request ever waits or is dispatched.
\<close>

theorem list_mode_ignores_startUrl:
  "map_option bUrlListMode (init e cfg) =
     (if strip (dict_get [] (cfg_urlList cfg)) \<noteq> [] then Some True
      else map_option (\<lambda>u. False) (cfg_startUrl cfg))
   \<and> (strip (dict_get [] (cfg_urlList cfg)) \<noteq> [] \<longrightarrow>
        (let seeds = map (\<lambda>u. \<lparr>req_url = u, req_dont_filter = True\<rparr>)
                       (remdups (map strip (filter (\<lambda>sUrl. strip sUrl \<noteq> [])
                                              (splitlines (dict_get [] (cfg_urlList cfg))))))
         in \<exists>sp0 sp1.
              init e cfg = Some sp0 \<and> sStartUrl sp0 = None \<and> allowed_domains sp0 = None
              \<and> startRequests sp0 = (sp1, seeds)
              \<and> (\<forall>fetch sp2 q. engine_run e fetch (sp1, seeds) (sp2, q) \<longrightarrow> set q \<subseteq> set seeds)
              \<and> (\<forall>n fetch sp2 outs done.
                    engine n e fetch sp1 seeds = Some (sp2, outs, done) \<longrightarrow> done = seeds)))"
proof (intro conjI impI)
  show "map_option bUrlListMode (init e cfg) =
     (if strip (dict_get [] (cfg_urlList cfg)) \<noteq> [] then Some True
      else map_option (\<lambda>u. False) (cfg_startUrl cfg))"
    by (simp add: init_def Let_def split: option.splits)
next
  assume nb: "strip (dict_get [] (cfg_urlList cfg)) \<noteq> []"
  define urls where "urls = remdups (map strip (filter (\<lambda>sUrl. strip sUrl \<noteq> [])
                                            (splitlines (dict_get [] (cfg_urlList cfg)))))"
  define seeds where "seeds = map (\<lambda>u. \<lparr>req_url = u, req_dont_filter = True\<rparr>) urls"
  from list_mode_init [OF nb, of e] obtain sp0 where
    i: "init e cfg = Some sp0" and f: "sStartUrl sp0 = None" "allowed_domains sp0 = None"
      "bUrlListMode sp0" "lUrlSet sp0 = {}" "lUrlList sp0 = Some urls"
    by (simp add: urls_def)
  define sp1 where "sp1 = sp0\<lparr>lUrlSet := set urls\<rparr>"
  have lm: "bUrlListMode sp1" using f by (simp add: sp1_def)
  have "start_list {} urls = ({} \<union> set urls, seeds)"
    unfolding seeds_def by (rule start_list_fresh) (simp_all add: urls_def)
  then have s: "startRequests sp0 = (sp1, seeds)"
    using f by (simp add: startRequests_def dict_get_def sp1_def)
  have pending: "set q \<subseteq> set seeds" if "engine_run e fetch (sp1, seeds) (sp2, q)" for fetch sp2 q
    using engine_run_list_mode [OF that lm] by simp
  have dispatched: "done = seeds"
    if "engine n e fetch sp1 seeds = Some (sp2, outs, done)" for n fetch sp2 outs "done"
    using engine_list_mode_done [OF lm that] .
  from i f s pending dispatched
  show "let seeds = map (\<lambda>u. \<lparr>req_url = u, req_dont_filter = True\<rparr>)
                       (remdups (map strip (filter (\<lambda>sUrl. strip sUrl \<noteq> [])
                                              (splitlines (dict_get [] (cfg_urlList cfg))))))
         in \<exists>sp0 sp1.
              init e cfg = Some sp0 \<and> sStartUrl sp0 = None \<and> allowed_domains sp0 = None
              \<and> startRequests sp0 = (sp1, seeds)
              \<and> (\<forall>fetch sp2 q. engine_run e fetch (sp1, seeds) (sp2, q) \<longrightarrow> set q \<subseteq> set seeds)
              \<and> (\<forall>n fetch sp2 outs done.
                    engine n e fetch sp1 seeds = Some (sp2, outs, done) \<longrightarrow> done = seeds)"
    unfolding Let_def seeds_def [symmetric] urls_def [symmetric] by blast
qed

text \<open>
  The theorem of claim C10 at a configuration that holds a URL list and a start URL: URL
  list mode, two start requests, and the start URL is not among them.
\<close>

theorem list_mode_ignores_startUrl_witness:
  "strip (dict_get [] (cfg_urlList cfg_both)) \<noteq> []
   \<and> cfg_startUrl cfg_both = Some ''http://example.org/start''
   \<and> map_option bUrlListMode (init env_utc cfg_both) = Some True
   \<and> (\<exists>sp0 sp1.
         init env_utc cfg_both = Some sp0 \<and> sStartUrl sp0 = None \<and> allowed_domains sp0 = None
         \<and> startRequests sp0 = (sp1, [\<lparr>req_url = ''http://example.com'', req_dont_filter = True\<rparr>,
                                       \<lparr>req_url = ''http://example.com/x'', req_dont_filter = True\<rparr>]))"
proof -
  have nb: "strip (dict_get [] (cfg_urlList cfg_both)) \<noteq> []"
    by (simp add: cfg_both_def cfg_none_def dict_get_def strip_def isspace_def)
  have su: "cfg_startUrl cfg_both = Some ''http://example.org/start''"
    by (simp add: cfg_both_def cfg_none_def)
  from list_mode_ignores_startUrl [of env_utc cfg_both] nb su
  show ?thesis unfolding Let_def cfg_both_urls by auto
qed

end
